theory Spec2Isabelle
  imports
    Complex_Main
    "HOL-Library.Sublist"
    "HOL-Library.List_Lexorder"
    "HOL-Library.Option_ord"
begin

section \<open>Text and JavaScript values\<close>

text \<open>
  Text is a list of Unicode code points. JavaScript's \<^verbatim>\<open>includes\<close>, \<^verbatim>\<open>split('/')\<close> and
  \<^verbatim>\<open>parseInt\<close> look only at characters of the Basic Multilingual Plane here, and SQLite
  compares and matches text character by character, so one representation serves both
  sides. Literals of the source that are plain ASCII are written with \<open>lit\<close>; the three
  accented language names are spelled out by code point (the source file holds them in
  composed form: U+00F1, U+00EA, U+00E7).
\<close>

type_synonym ustring = "nat list"

definition lit :: "string \<Rightarrow> ustring" where
  "lit s = map of_char s"

text \<open>
  The JavaScript values that occur in query parameters, database rows and API payloads.
  Numbers are the integers (exact in a double below \<open>2^53\<close>); \<^verbatim>\<open>NaN\<close> only arises
  inside \<^verbatim>\<open>parseInt\<close> and is modelled there. An object is its property list in
  insertion order.
\<close>

datatype jsval =
    JUndefined
  | JNull
  | JBool bool
  | JNum int
  | JStr ustring
  | JArr "jsval list"
  | JObj "(string \<times> jsval) list"

datatype js_error = TypeError

text \<open>\<^verbatim>\<open>!v\<close> is \<open>\<not> truthy v\<close>.\<close>

fun truthy :: "jsval \<Rightarrow> bool" where
  "truthy JUndefined = False"
| "truthy JNull = False"
| "truthy (JBool b) = b"
| "truthy (JNum n) = (n \<noteq> 0)"
| "truthy (JStr s) = (s \<noteq> [])"
| "truthy (JArr xs) = True"
| "truthy (JObj kvs) = True"

text \<open>\<^verbatim>\<open>a || b\<close>\<close>

definition js_or :: "jsval \<Rightarrow> jsval \<Rightarrow> jsval" where
  "js_or a b = (if truthy a then a else b)"

text \<open>
  Reading a property \<^verbatim>\<open>v.k\<close> of a value that is neither \<^verbatim>\<open>null\<close> nor
  \<^verbatim>\<open>undefined\<close> (every read in the source is behind such a guard): a missing property
  is \<^verbatim>\<open>undefined\<close>, and so are the row field names on a primitive or an array.
\<close>

fun get_prop :: "jsval \<Rightarrow> string \<Rightarrow> jsval" where
  "get_prop (JObj kvs) k = (case map_of kvs k of Some v \<Rightarrow> v | None \<Rightarrow> JUndefined)"
| "get_prop v k = JUndefined"

section \<open>Path taxonomy resolver\<close>

text \<open>\<^verbatim>\<open>String.prototype.includes\<close>: the pattern occurs as a contiguous run.\<close>

fun js_includes :: "'a list \<Rightarrow> 'a list \<Rightarrow> bool" where
  "js_includes [] pat = (pat = [])"
| "js_includes (c # cs) pat = (prefix pat (c # cs) \<or> js_includes cs pat)"

text \<open>
  \<^verbatim>\<open>String.prototype.split(sep)\<close> for a one-character separator: one part more than
  there are separators, the empty string giving one empty part.
\<close>

fun js_split :: "'a \<Rightarrow> 'a list \<Rightarrow> 'a list list" where
  "js_split sep [] = [[]]"
| "js_split sep (c # cs) =
     (if c = sep then [] # js_split sep cs
      else (case js_split sep cs of p # ps \<Rightarrow> (c # p) # ps | [] \<Rightarrow> [[c]]))"

definition slash :: nat where
  "slash = 47"

definition Espanol :: ustring where
  "Espanol = lit ''Espa'' @ [241] @ lit ''ol''"

definition English :: ustring where
  "English = lit ''English''"

definition Portugues :: ustring where
  "Portugues = lit ''Portugu'' @ [234] @ lit ''s''"

definition Deutsch :: ustring where
  "Deutsch = lit ''Deutsch''"

definition Francais :: ustring where
  "Francais = lit ''Fran'' @ [231] @ lit ''ais''"

definition Italiano :: ustring where
  "Italiano = lit ''Italiano''"

definition Other :: ustring where
  "Other = lit ''Other''"

definition General :: ustring where
  "General = lit ''General''"

text \<open>The bracketed segment \<^verbatim>\<open>'/<language>/'\<close> the source searches for.\<close>

definition lang_token :: "ustring \<Rightarrow> ustring" where
  "lang_token l = slash # l @ [slash]"

text \<open>
  \<^verbatim>\<open>path.includes(t)\<close> by receiver: substring search on a string, membership on an
  array, and a TypeError on anything else (\<^verbatim>\<open>null\<close> and \<^verbatim>\<open>undefined\<close> have no
  properties; numbers, booleans and plain objects have no \<^verbatim>\<open>includes\<close> to call).
\<close>

fun path_includes :: "jsval \<Rightarrow> ustring \<Rightarrow> js_error + bool" where
  "path_includes (JStr p) t = Inr (js_includes p t)"
| "path_includes (JArr xs) t = Inr (JStr t \<in> set xs)"
| "path_includes v t = Inl TypeError"

text \<open>
  \<^verbatim>\<open>getLanguageFromPath\<close>: six tests in the order of the source, the first hit
  returns. The receiver is the same value in each test, so a TypeError can only come
  from the first.
\<close>

definition getLanguageFromPath :: "jsval \<Rightarrow> js_error + ustring" where
  "getLanguageFromPath path =
     (case path_includes path (lang_token Espanol) of
        Inl e \<Rightarrow> Inl e
      | Inr b1 \<Rightarrow>
          if b1 then Inr Espanol
          else if path_includes path (lang_token English) = Inr True then Inr English
          else if path_includes path (lang_token Portugues) = Inr True then Inr Portugues
          else if path_includes path (lang_token Deutsch) = Inr True then Inr Deutsch
          else if path_includes path (lang_token Francais) = Inr True then Inr Francais
          else if path_includes path (lang_token Italiano) = Inr True then Inr Italiano
          else Inr Other)"

text \<open>
  \<^verbatim>\<open>getCategoryFromPath\<close>: the last part of \<^verbatim>\<open>path.split('/')\<close> when there are at
  least four parts, \<^verbatim>\<open>'General'\<close> otherwise. Only strings have \<^verbatim>\<open>split\<close>.
\<close>

fun getCategoryFromPath :: "jsval \<Rightarrow> js_error + ustring" where
  "getCategoryFromPath (JStr path) =
     (let parts = js_split slash path
      in if 4 \<le> length parts then Inr (parts ! (length parts - 1)) else Inr General)"
| "getCategoryFromPath v = Inl TypeError"

text \<open>
  The spec's reading of category resolution, kept apart from the code's: strip the
  constant prefix \<^verbatim>\<open>Calendar/Champions of Regnum/\<close>, the resolved language segment and
  the slash after it, and return what remains (the form the category queries of the
  database layer use: \<^verbatim>\<open>SUBSTR(path, LENGTH(prefix) + LENGTH(language) + 2)\<close>).
\<close>

definition root_prefix :: ustring where
  "root_prefix = lit ''Calendar/Champions of Regnum/''"

definition spec_category_remainder :: "ustring \<Rightarrow> ustring" where
  "spec_category_remainder path =
     (case getLanguageFromPath (JStr path) of
        Inr l \<Rightarrow> drop (length root_prefix + length l + 1) path
      | Inl e \<Rightarrow> path)"

section \<open>Numbers and strings\<close>

text \<open>
  \<^verbatim>\<open>String(n)\<close> for an integer below \<open>10^21\<close> in magnitude: decimal digits, a
  minus sign when negative. From \<open>10^21\<close> on JavaScript prints a number with an
  exponent; numbers that large are never converted, since the parameters of a request
  arrive as strings and the numbers the source converts itself are page numbers and
  the defaults 1 and 20.
\<close>

fun nat_digits :: "nat \<Rightarrow> ustring" where
  "nat_digits n = (if n < 10 then [48 + n] else nat_digits (n div 10) @ [48 + n mod 10])"

declare nat_digits.simps [simp del]

definition num_text :: "int \<Rightarrow> ustring" where
  "num_text i = (if i < 0 then 45 # nat_digits (nat (- i)) else nat_digits (nat i))"

text \<open>
  \<^verbatim>\<open>ToString\<close>, as applied by \<^verbatim>\<open>parseInt\<close> and by template literals. An array
  joins its elements with commas, \<^verbatim>\<open>null\<close> and \<^verbatim>\<open>undefined\<close> elements giving the
  empty string.
\<close>

fun join_with :: "'a \<Rightarrow> 'a list list \<Rightarrow> 'a list" where
  "join_with sep [] = []"
| "join_with sep [x] = x"
| "join_with sep (x # y # ys) = x @ sep # join_with sep (y # ys)"

fun to_string :: "jsval \<Rightarrow> ustring" where
  "to_string JUndefined = lit ''undefined''"
| "to_string JNull = lit ''null''"
| "to_string (JBool b) = (if b then lit ''true'' else lit ''false'')"
| "to_string (JNum n) = num_text n"
| "to_string (JStr s) = s"
| "to_string (JArr xs) =
     join_with 44 (map (\<lambda>x. if x = JNull \<or> x = JUndefined then [] else to_string x) xs)"
| "to_string (JObj kvs) = lit ''[object Object]''"

text \<open>
  A JavaScript number is a double. Every integer of magnitude below \<open>2^53\<close> is one; a
  larger integer is rounded to 53 significant bits, to the nearest double and to the
  even one of two equally near. \<open>shift_count m\<close> is the number of low bits that do
  not fit. Past the largest double (about \<open>1.8 * 10^308\<close>) JavaScript has the value
  Infinity, which the integers do not have: the model rounds such an integer like
  any other. Of a number that large only bounds are stated below, which Infinity
  satisfies as well; every equation is stated for numbers below \<open>2^53\<close>.
\<close>

fun shift_count :: "nat \<Rightarrow> nat" where
  "shift_count m = (if m < 2 ^ 53 then 0 else Suc (shift_count (m div 2)))"

declare shift_count.simps [simp del]

definition round_double :: "int \<Rightarrow> int" where
  "round_double n =
     (let m = nat \<bar>n\<bar>;
          e = shift_count m;
          q = m div 2 ^ e;
          r = m mod 2 ^ e;
          q' = (if 2 ^ e < 2 * r \<or> (2 * r = 2 ^ e \<and> odd q) then q + 1 else q)
      in sgn n * int (q' * 2 ^ e))"

text \<open>\<^verbatim>\<open>Number.isSafeInteger\<close>\<close>

definition safe_integer :: "int \<Rightarrow> bool" where
  "safe_integer n = (\<bar>n\<bar> < 2 ^ 53)"

text \<open>
  \<^verbatim>\<open>parseInt(v)\<close> with no radix: skip leading white space, read a sign, switch to
  radix 16 after \<^verbatim>\<open>0x\<close> or \<^verbatim>\<open>0X\<close>, read the longest run of digits and return the
  double nearest to their value; \<open>None\<close> is \<^verbatim>\<open>NaN\<close> (no digit read).
\<close>

definition is_js_space :: "nat \<Rightarrow> bool" where
  "is_js_space c =
     (c \<in> set [9, 10, 11, 12, 13, 32, 160, 5760, 8232, 8233, 8239, 8287, 12288, 65279]
      \<or> (8192 \<le> c \<and> c \<le> 8202))"

definition digit_value :: "nat \<Rightarrow> nat \<Rightarrow> nat option" where
  "digit_value radix c =
     (let v = (if 48 \<le> c \<and> c \<le> 57 then c - 48
               else if 97 \<le> c \<and> c \<le> 122 then c - 87
               else if 65 \<le> c \<and> c \<le> 90 then c - 55
               else radix)
      in if v < radix then Some v else None)"

fun leading_digits :: "nat \<Rightarrow> ustring \<Rightarrow> nat list" where
  "leading_digits radix [] = []"
| "leading_digits radix (c # cs) =
     (case digit_value radix c of
        Some v \<Rightarrow> v # leading_digits radix cs
      | None \<Rightarrow> [])"

definition parse_int_string :: "ustring \<Rightarrow> int option" where
  "parse_int_string s =
     (let s1 = dropWhile is_js_space s;
          negative = (case s1 of c # _ \<Rightarrow> c = 45 | [] \<Rightarrow> False);
          s2 = (case s1 of c # cs \<Rightarrow> if c = 43 \<or> c = 45 then cs else s1 | [] \<Rightarrow> s1);
          hex = (case s2 of a # b # _ \<Rightarrow> a = 48 \<and> (b = 120 \<or> b = 88) | _ \<Rightarrow> False);
          radix = (if hex then 16 else 10);
          ds = leading_digits radix (if hex then drop 2 s2 else s2);
          magnitude = int (foldl (\<lambda>a v. a * radix + v) 0 ds)
      in if ds = [] then None
         else Some (round_double (if negative then - magnitude else magnitude)))"

definition parseInt :: "jsval \<Rightarrow> int option" where
  "parseInt v = parse_int_string (to_string v)"

text \<open>\<^verbatim>\<open>parseInt(v) || d\<close>: \<^verbatim>\<open>NaN\<close> and \<open>0\<close> are falsy.\<close>

definition number_or :: "int option \<Rightarrow> int \<Rightarrow> int" where
  "number_or r d = (case r of None \<Rightarrow> d | Some n \<Rightarrow> if n = 0 then d else n)"

section \<open>Pagination calculator\<close>

record page_params =
  page :: int
  limit :: int
  offset :: int

text \<open>
  \<^verbatim>\<open>validatePagination\<close>. The maximum and the minimum of doubles are exact; the
  subtraction and the multiplication of the offset each round their result.
\<close>

definition validatePagination :: "jsval \<Rightarrow> jsval \<Rightarrow> page_params" where
  "validatePagination p l =
     (let validatedPage = max 1 (number_or (parseInt p) 1);
          validatedLimit = min 100 (max 1 (number_or (parseInt l) 20))
      in \<lparr>page = validatedPage, limit = validatedLimit,
          offset = round_double (round_double (validatedPage - 1) * validatedLimit)\<rparr>)"

record page_link =
  link_page :: int
  link_url :: ustring
  link_active :: bool

record pagination =
  pages :: "page_link list"
  prev_url :: "ustring option"
  next_url :: "ustring option"
  totalPages :: int
  currentPage :: int
  totalItems :: int
  itemsPerPage :: int
  hasNext :: bool
  hasPrev :: bool
  startItem :: int
  endItem :: int

text \<open>\<^verbatim>\<open>`${baseUrl}&page=${i}`\<close>\<close>

definition page_url :: "ustring \<Rightarrow> int \<Rightarrow> ustring" where
  "page_url baseUrl i = baseUrl @ lit ''&page='' @ num_text i"

text \<open>
  \<^verbatim>\<open>getPagination\<close>, on the arguments for which JavaScript computes with integers:
  the three numbers and every sum and product the function forms are safe integers,
  and the divisor is not \<open>0\<close>. There the sums and products are exact, and so is
  \<^verbatim>\<open>Math.ceil(totalItems / itemsPerPage)\<close>: a quotient that is not an integer lies at
  least \<open>1 / |itemsPerPage|\<close> from the nearest one, and its double lies closer to
  it than that. On any other argument (an infinity or \<^verbatim>\<open>NaN\<close> from the division by
  \<open>0\<close>, a rounded product, a loop counter that no longer advances) the model
  returns \<open>None\<close> and says nothing. The fields \<^verbatim>\<open>prev\<close> and \<^verbatim>\<open>next\<close> are
  \<open>prev_url\<close> and \<open>next_url\<close>, \<open>None\<close> for \<^verbatim>\<open>null\<close>. The \<^verbatim>\<open>for\<close> loop runs
  \<open>i\<close> over \<open>[startPage..endPage]\<close>.
\<close>

definition getPagination :: "int \<Rightarrow> int \<Rightarrow> int \<Rightarrow> ustring \<Rightarrow> pagination option" where
  "getPagination cur tot perPage baseUrl =
     (if perPage = 0
         \<or> \<not> list_all safe_integer
               [cur, tot, perPage, cur - 2, cur + 2, cur * perPage, (cur - 1) * perPage,
                (cur - 1) * perPage + 1]
      then None
      else
        let pageCount = \<lceil>real_of_int tot / real_of_int perPage\<rceil>;
            startPage = max 1 (cur - 2);
            endPage = min pageCount (cur + 2)
        in Some \<lparr>
             pages = map (\<lambda>i. \<lparr>link_page = i, link_url = page_url baseUrl i,
                                link_active = (i = cur)\<rparr>) [startPage..endPage],
             prev_url = (if cur > 1 then Some (page_url baseUrl (cur - 1)) else None),
             next_url = (if cur < pageCount then Some (page_url baseUrl (cur + 1))
                         else None),
             totalPages = pageCount,
             currentPage = cur,
             totalItems = tot,
             itemsPerPage = perPage,
             hasNext = (cur < pageCount),
             hasPrev = (cur > 1),
             startItem = (cur - 1) * perPage + 1,
             endItem = min (cur * perPage) tot\<rparr>)"

text \<open>
  The spec's calculator takes (requestedPage, requestedLimit, totalItemCount); in the
  source it is \<^verbatim>\<open>getPagination\<close> applied to what \<^verbatim>\<open>validatePagination\<close> returns.
\<close>

definition calculator :: "jsval \<Rightarrow> jsval \<Rightarrow> int \<Rightarrow> ustring \<Rightarrow> pagination option" where
  "calculator p l tot baseUrl =
     (let v = validatePagination p l in getPagination (page v) tot (limit v) baseUrl)"

section \<open>Result formatter\<close>

subsection \<open>Timestamp normalisation\<close>

text \<open>
  The date library \<^verbatim>\<open>moment\<close> is not part of the repository; the formatter takes it as
  a parameter. \<open>moment_parse lib v fmt\<close> stands for \<^verbatim>\<open>moment(v, fmt)\<close> followed by
  \<^verbatim>\<open>isValid()\<close>, and \<open>moment_format lib dt fmt\<close> for \<^verbatim>\<open>dt.format(fmt)\<close>. Either
  call may throw (\<open>Threw\<close>, \<open>None\<close>): the source wraps both in \<^verbatim>\<open>try\<close>.
\<close>

datatype 'm attempt = Threw | Invalid | Valid 'm

record 'm moment_lib =
  moment_parse :: "jsval \<Rightarrow> ustring \<Rightarrow> 'm attempt"
  moment_format :: "'m \<Rightarrow> ustring \<Rightarrow> ustring option"

definition Unknown :: ustring where
  "Unknown = lit ''Unknown''"

definition primary_format :: ustring where
  "primary_format = lit ''DD-MM-YYYY, hh:mm A''"

definition formats :: "ustring list" where
  "formats =
     [lit ''MM-DD-YYYY, hh:mm A'',
      lit ''DD/MM/YYYY, hh:mm A'',
      lit ''MM/DD/YYYY, hh:mm A'',
      lit ''YYYY-MM-DD hh:mm A'']"

text \<open>
  The output format: month name, day, year, the word "at" (each of its letters escaped
  by a backslash, code point 92) and the twelve-hour time.
\<close>

definition canonical_format :: ustring where
  "canonical_format = lit ''MMM D, YYYY '' @ [92] @ lit ''a'' @ [92] @ lit ''t h:mm A''"

text \<open>
  One attempt: \<^verbatim>\<open>dt = moment(timestamp, format); if (dt.isValid()) return dt.format(...)\<close>.
  \<open>Some v\<close> is the value the function returns from this attempt (the rendered text,
  or the original timestamp through the \<^verbatim>\<open>catch\<close>), \<open>None\<close> means the attempt
  falls through to the next statement.
\<close>

definition attempt_format :: "'m moment_lib \<Rightarrow> jsval \<Rightarrow> ustring \<Rightarrow> jsval option" where
  "attempt_format lib timestamp fmt =
     (case moment_parse lib timestamp fmt of
        Threw \<Rightarrow> Some timestamp
      | Invalid \<Rightarrow> None
      | Valid dt \<Rightarrow>
          (case moment_format lib dt canonical_format of
             None \<Rightarrow> Some timestamp
           | Some rendered \<Rightarrow> Some (JStr rendered)))"

text \<open>The \<^verbatim>\<open>for (const format of formats)\<close> loop and the \<^verbatim>\<open>return timestamp\<close> after it.\<close>

fun try_formats :: "'m moment_lib \<Rightarrow> jsval \<Rightarrow> ustring list \<Rightarrow> jsval" where
  "try_formats lib timestamp [] = timestamp"
| "try_formats lib timestamp (fmt # fmts) =
     (case attempt_format lib timestamp fmt of
        Some v \<Rightarrow> v
      | None \<Rightarrow> try_formats lib timestamp fmts)"

definition formatTimestamp :: "'m moment_lib \<Rightarrow> jsval \<Rightarrow> jsval" where
  "formatTimestamp lib timestamp =
     (if \<not> truthy timestamp then JStr Unknown
      else
        (case attempt_format lib timestamp primary_format of
           Some v \<Rightarrow> v
         | None \<Rightarrow> try_formats lib timestamp formats))"

text \<open>
  Instances of the library for concrete runs; a parsed date is represented by its
  rendering in the output format. \<open>sample_moment\<close> accepts one timestamp both as
  day-month (under the first format) and as month-day (under the second), a second
  timestamp, with 31 in the place of the month, as month-day only, and finds
  everything else invalid. \<open>throwing_moment\<close> finds the primary format invalid
  and throws at the second; \<open>unrenderable_moment\<close> parses everything and throws
  when asked to render.
\<close>

definition sample_moment :: "ustring moment_lib" where
  "sample_moment =
     \<lparr>moment_parse = (\<lambda>v fmt.
        if v = JStr (lit ''05-09-2008, 09:39 PM'') \<and> fmt = lit ''DD-MM-YYYY, hh:mm A''
          then Valid (lit ''Sep 5, 2008 at 9:39 PM'')
        else if v = JStr (lit ''05-09-2008, 09:39 PM'') \<and> fmt = lit ''MM-DD-YYYY, hh:mm A''
          then Valid (lit ''May 9, 2008 at 9:39 PM'')
        else if v = JStr (lit ''12-31-2008, 09:39 PM'') \<and> fmt = lit ''MM-DD-YYYY, hh:mm A''
          then Valid (lit ''Dec 31, 2008 at 9:39 PM'')
        else Invalid),
      moment_format = (\<lambda>dt fmt.
        if fmt = lit ''MMM D, YYYY '' @ [92] @ lit ''a'' @ [92] @ lit ''t h:mm A''
          then Some dt
        else Some fmt)\<rparr>"

definition throwing_moment :: "ustring moment_lib" where
  "throwing_moment =
     \<lparr>moment_parse = (\<lambda>v fmt.
        if fmt = lit ''DD-MM-YYYY, hh:mm A'' then Invalid
        else if fmt = lit ''MM-DD-YYYY, hh:mm A'' then Threw
        else Valid (lit ''Dec 31, 2008 at 9:39 PM'')),
      moment_format = (\<lambda>dt fmt. Some dt)\<rparr>"

definition unrenderable_moment :: "ustring moment_lib" where
  "unrenderable_moment =
     \<lparr>moment_parse = (\<lambda>v fmt. Valid (lit ''Dec 31, 2008 at 9:39 PM'')),
      moment_format = (\<lambda>dt fmt. None)\<rparr>"

subsection \<open>Message sanitisation\<close>

text \<open>
  The filter \<^verbatim>\<open>sanitize-html\<close> is not part of the repository either; it is the
  parameter \<open>sanitizeHtml\<close>, called with the options the source builds.
\<close>

record sanitize_options =
  allowedTags :: "ustring list"
  allowedAttributes :: "(ustring \<times> ustring list) list"
  allowedSchemes :: "ustring list"
  allowedIframeHostnames :: "ustring list"

definition sanitize_config :: sanitize_options where
  "sanitize_config =
     \<lparr>allowedTags = map lit
        [''p'', ''br'', ''b'', ''strong'', ''i'', ''em'', ''u'', ''a'', ''img'', ''div'', ''span'',
         ''ul'', ''ol'', ''li'', ''blockquote'', ''h1'', ''h2'', ''h3'', ''h4'', ''h5'', ''h6'',
         ''pre'', ''code'', ''hr'', ''table'', ''thead'', ''tbody'', ''tr'', ''td'', ''th''],
      allowedAttributes =
        [(lit ''a'', map lit [''href'', ''title'', ''target'']),
         (lit ''img'', map lit [''src'', ''alt'', ''title'', ''width'', ''height'']),
         (lit ''*'', map lit [''class'', ''style''])],
      allowedSchemes = map lit [''http'', ''https'', ''mailto''],
      allowedIframeHostnames = []\<rparr>"

definition sanitizeHtmlContent ::
  "(jsval \<Rightarrow> sanitize_options \<Rightarrow> ustring) \<Rightarrow> jsval \<Rightarrow> jsval" where
  "sanitizeHtmlContent sanitizeHtml html =
     (if \<not> truthy html then JStr [] else JStr (sanitizeHtml html sanitize_config))"

subsection \<open>Entity formatters\<close>

text \<open>\<^verbatim>\<open>row.field ? formatTimestamp(row.field) : null\<close>\<close>

definition optional_timestamp :: "'m moment_lib \<Rightarrow> jsval \<Rightarrow> jsval" where
  "optional_timestamp lib v = (if truthy v then formatTimestamp lib v else JNull)"

text \<open>
  \<^verbatim>\<open>formatThreadForApi\<close>. The properties of the object literal are evaluated in
  order; the two path helpers are the only calls that can throw.
\<close>

definition formatThreadForApi :: "'m moment_lib \<Rightarrow> jsval \<Rightarrow> js_error + jsval" where
  "formatThreadForApi lib thread =
     (if \<not> truthy thread then Inr JNull
      else
        (case getLanguageFromPath (get_prop thread ''path'') of
           Inl e \<Rightarrow> Inl e
         | Inr language \<Rightarrow>
             (case getCategoryFromPath (get_prop thread ''path'') of
                Inl e \<Rightarrow> Inl e
              | Inr category \<Rightarrow>
                  Inr (JObj
                    [(''id'', get_prop thread ''id''),
                     (''name'', get_prop thread ''name''),
                     (''path'', get_prop thread ''path''),
                     (''language'', JStr language),
                     (''category'', JStr category),
                     (''postCount'', js_or (get_prop thread ''post_count'') (JNum 0)),
                     (''lastPoster'', get_prop thread ''last_poster''),
                     (''lastPostTime'', optional_timestamp lib (get_prop thread ''last_post_time'')),
                     (''createdTime'', optional_timestamp lib (get_prop thread ''created_time'')),
                     (''threadCreator'', get_prop thread ''thread_creator'')]))))"

definition formatUserForApi :: "'m moment_lib \<Rightarrow> jsval \<Rightarrow> jsval" where
  "formatUserForApi lib user =
     (if \<not> truthy user then JNull
      else JObj
        [(''id'', get_prop user ''id''),
         (''name'', get_prop user ''name''),
         (''postCount'',
            js_or (js_or (get_prop user ''post_count'') (get_prop user ''total_posts'')) (JNum 0)),
         (''threadCount'',
            js_or (js_or (get_prop user ''thread_count'') (get_prop user ''total_threads''))
              (JNum 0)),
         (''firstPost'', optional_timestamp lib (get_prop user ''first_post'')),
         (''lastPost'', optional_timestamp lib (get_prop user ''last_post''))])"

definition formatPostForApi ::
  "'m moment_lib \<Rightarrow> (jsval \<Rightarrow> sanitize_options \<Rightarrow> ustring) \<Rightarrow> jsval \<Rightarrow> jsval" where
  "formatPostForApi lib sanitizeHtml post =
     (if \<not> truthy post then JNull
      else JObj
        [(''id'', get_prop post ''id''),
         (''threadId'', get_prop post ''thread_id''),
         (''postNo'', get_prop post ''post_no''),
         (''userId'', get_prop post ''user_id''),
         (''username'', js_or (get_prop post ''username'') (JStr (lit ''Guest''))),
         (''timestamp'', optional_timestamp lib (get_prop post ''timestamp'')),
         (''message'', sanitizeHtmlContent sanitizeHtml (get_prop post ''message'')),
         (''threadName'', get_prop post ''thread_name''),
         (''threadPath'', get_prop post ''thread_path'')])"

section \<open>Database layer\<close>

text \<open>
  Modelled from the spec: the table declarations. The repository ships no schema (the
  SQLite file is supplied from outside), so the three tables follow section 3 of the
  spec: a thread has an identifier, a name and a path; a post has an identifier, its
  thread, its number within the thread, a user identifier that is null for guests, a
  timestamp string and a message; a user has an identifier and a name (the queries test
  names for null, so the name is nullable). Text is compared the way SQLite's default
  collation does, character by character, a proper prefix first.
\<close>

record thread_rec =
  thread_id :: int
  thread_name :: ustring
  thread_path :: ustring

record post_rec =
  post_id :: int
  post_thread :: int
  post_no :: int
  post_user :: "int option"
  post_time :: ustring
  post_message :: ustring

record user_rec =
  user_id :: int
  user_name :: "ustring option"

record database =
  threads :: "thread_rec list"
  posts :: "post_rec list"
  users :: "user_rec list"

subsection \<open>SQL operators\<close>

text \<open>
  \<^verbatim>\<open>subject LIKE pattern\<close>: \<^verbatim>\<open>%\<close> (37) matches any run of characters, \<^verbatim>\<open>_\<close> (95)
  any single character, every other character itself, the ASCII letters without regard
  to case.
\<close>

definition ascii_lower :: "nat \<Rightarrow> nat" where
  "ascii_lower c = (if 65 \<le> c \<and> c \<le> 90 then c + 32 else c)"

fun like :: "ustring \<Rightarrow> ustring \<Rightarrow> bool" where
  "like [] s = (s = [])"
| "like (p # ps) [] = (p = 37 \<and> like ps [])"
| "like (p # ps) (c # cs) =
     (if p = 37 then like ps (c # cs) \<or> like (p # ps) cs
      else (p = 95 \<or> ascii_lower p = ascii_lower c) \<and> like ps cs)"

text \<open>\<^verbatim>\<open>MAX\<close> and \<^verbatim>\<open>MIN\<close> over the values of a group; null for an empty group.\<close>

fun max_opt :: "'a::linorder list \<Rightarrow> 'a option" where
  "max_opt [] = None"
| "max_opt (x # xs) = Some (fold max xs x)"

fun min_opt :: "'a::linorder list \<Rightarrow> 'a option" where
  "min_opt [] = None"
| "min_opt (x # xs) = Some (fold min xs x)"

text \<open>
  \<^verbatim>\<open>ORDER BY key DESC\<close>. SQLite leaves the order of rows with equal keys open; the
  model keeps them in their input order. A null key is \<open>None\<close>, below every value,
  so it sorts last, which is also what \<^verbatim>\<open>NULLS LAST\<close> asks for.
\<close>

fun insert_desc :: "('a \<Rightarrow> 'k::linorder) \<Rightarrow> 'a \<Rightarrow> 'a list \<Rightarrow> 'a list" where
  "insert_desc key x [] = [x]"
| "insert_desc key x (y # ys) =
     (if key x < key y then y # insert_desc key x ys else x # y # ys)"

definition order_by_desc :: "('a \<Rightarrow> 'k::linorder) \<Rightarrow> 'a list \<Rightarrow> 'a list" where
  "order_by_desc key xs = foldr (insert_desc key) xs []"

text \<open>\<^verbatim>\<open>LIMIT n OFFSET m\<close>: a negative limit is no limit, a negative offset is 0.\<close>

definition limit_offset :: "int \<Rightarrow> int \<Rightarrow> 'a list \<Rightarrow> 'a list" where
  "limit_offset row_limit row_offset xs =
     (if row_limit < 0 then drop (nat row_offset) xs else take (nat row_limit) (drop (nat row_offset) xs))"

text \<open>
  \<^verbatim>\<open>LEFT JOIN tbl ON cond\<close> for one row of the left side: the matching rows of the
  table, or a single all-null row when there is none.
\<close>

definition left_join :: "'a list \<Rightarrow> ('a \<Rightarrow> bool) \<Rightarrow> 'a option list" where
  "left_join tbl cond = (case filter cond tbl of [] \<Rightarrow> [None] | ms \<Rightarrow> map Some ms)"

subsection \<open>Result rows\<close>

record thread_summary =
  s_id :: int
  s_name :: ustring
  s_path :: ustring
  s_post_count :: int
  s_last_poster :: "ustring option"
  s_last_post_time :: "ustring option"
  s_created_time :: "ustring option"
  s_thread_creator :: "ustring option"

definition opt_text :: "ustring option \<Rightarrow> jsval" where
  "opt_text v = (case v of None \<Rightarrow> JNull | Some s \<Rightarrow> JStr s)"

text \<open>The row object the driver hands to JavaScript, one property per selected column.\<close>

definition thread_row :: "thread_summary \<Rightarrow> jsval" where
  "thread_row r =
     JObj [(''id'', JNum (s_id r)),
           (''name'', JStr (s_name r)),
           (''path'', JStr (s_path r)),
           (''post_count'', JNum (s_post_count r)),
           (''last_poster'', opt_text (s_last_poster r)),
           (''last_post_time'', opt_text (s_last_post_time r)),
           (''created_time'', opt_text (s_created_time r)),
           (''thread_creator'', opt_text (s_thread_creator r))]"

definition posts_of :: "database \<Rightarrow> int \<Rightarrow> post_rec list" where
  "posts_of db tid = filter (\<lambda>p. post_thread p = tid) (posts db)"

text \<open>\<^verbatim>\<open>`%/${language}/%`\<close> and \<^verbatim>\<open>`%/${category}`\<close>\<close>

definition language_pattern :: "jsval \<Rightarrow> ustring" where
  "language_pattern language = [37, 47] @ to_string language @ [47, 37]"

definition category_pattern :: "jsval \<Rightarrow> ustring" where
  "category_pattern category = [37, 47] @ to_string category"

subsection \<open>getThreads\<close>

text \<open>
  The scalar subqueries of the select list. Where \<^verbatim>\<open>ORDER BY ... LIMIT 1\<close> meets equal
  keys SQLite may pick any of the rows; the model picks the first in table order.
\<close>

definition last_poster_of :: "database \<Rightarrow> int \<Rightarrow> ustring option" where
  "last_poster_of db tid =
     (case order_by_desc (\<lambda>(p, u). post_time p)
             [(p, u). p \<leftarrow> posts_of db tid, u \<leftarrow> users db, post_user p = Some (user_id u)] of
        [] \<Rightarrow> None
      | (p, u) # _ \<Rightarrow> user_name u)"

definition thread_creator_of :: "database \<Rightarrow> int \<Rightarrow> ustring option" where
  "thread_creator_of db tid =
     (case sort_key (\<lambda>(p, u). post_no p)
             [(p, u). p \<leftarrow> posts_of db tid, u \<leftarrow> users db, post_user p = Some (user_id u)] of
        [] \<Rightarrow> None
      | (p, u) # _ \<Rightarrow> user_name u)"

definition thread_select :: "database \<Rightarrow> thread_rec \<Rightarrow> thread_summary" where
  "thread_select db t =
     \<lparr>s_id = thread_id t,
      s_name = thread_name t,
      s_path = thread_path t,
      s_post_count = int (length (posts_of db (thread_id t))),
      s_last_poster = last_poster_of db (thread_id t),
      s_last_post_time = max_opt (map post_time (posts_of db (thread_id t))),
      s_created_time = min_opt (map post_time (posts_of db (thread_id t))),
      s_thread_creator = thread_creator_of db (thread_id t)\<rparr>"

text \<open>\<^verbatim>\<open>WHERE 1=1\<close> and the two optional \<^verbatim>\<open>AND t.path LIKE ?\<close> clauses.\<close>

definition threads_where :: "jsval \<Rightarrow> jsval \<Rightarrow> thread_rec \<Rightarrow> bool" where
  "threads_where language category t =
     ((if truthy language then like (language_pattern language) (thread_path t) else True)
      \<and> (if truthy category then like (category_pattern category) (thread_path t) else True))"

definition getThreads :: "jsval \<Rightarrow> jsval \<Rightarrow> int \<Rightarrow> int \<Rightarrow> database \<Rightarrow> jsval list" where
  "getThreads language category row_limit row_offset db =
     map thread_row
       (limit_offset row_limit row_offset
          (order_by_desc s_last_post_time
             (map (thread_select db) (filter (threads_where language category) (threads db)))))"

subsection \<open>searchThreads\<close>

text \<open>\<^verbatim>\<open>`%${query}%`\<close>\<close>

definition search_pattern :: "jsval \<Rightarrow> ustring" where
  "search_pattern query = [37] @ to_string query @ [37]"

text \<open>
  \<^verbatim>\<open>(SELECT user_id FROM posts WHERE thread_id = t.id ORDER BY timestamp ASC LIMIT 1)\<close>
\<close>

definition first_user_of :: "database \<Rightarrow> int \<Rightarrow> int option" where
  "first_user_of db tid =
     (case sort_key post_time (posts_of db tid) of [] \<Rightarrow> None | p # _ \<Rightarrow> post_user p)"

text \<open>
  The \<^verbatim>\<open>FROM\<close> clause: threads, left-joined with their posts \<open>p\<close>, with the user
  \<open>u\<close> of a post that carries the thread's greatest timestamp, and with the user
  \<open>u2\<close> of the thread's first post.
\<close>

definition search_from ::
  "database \<Rightarrow> (thread_rec \<times> post_rec option \<times> user_rec option \<times> user_rec option) list" where
  "search_from db =
     [(t, p, u, u2).
        t \<leftarrow> threads db,
        p \<leftarrow> left_join (posts db) (\<lambda>p. post_thread p = thread_id t),
        u \<leftarrow> left_join (users db) (\<lambda>u.
               case p of
                 None \<Rightarrow> False
               | Some p' \<Rightarrow> post_user p' = Some (user_id u)
                   \<and> Some (post_time p') = max_opt (map post_time (posts_of db (thread_id t)))),
        u2 \<leftarrow> left_join (users db) (\<lambda>u2. Some (user_id u2) = first_user_of db (thread_id t))]"

text \<open>
  The \<^verbatim>\<open>WHERE\<close> clause: the name matches, or some post of the thread has a matching
  message; and the optional language clause.
\<close>

definition search_where :: "jsval \<Rightarrow> jsval \<Rightarrow> database \<Rightarrow> thread_rec \<Rightarrow> bool" where
  "search_where query language db t =
     ((like (search_pattern query) (thread_name t)
       \<or> list_ex (\<lambda>p2. post_thread p2 = thread_id t
                        \<and> like (search_pattern query) (post_message p2)) (posts db))
      \<and> (if truthy language then like (language_pattern language) (thread_path t) else True))"

text \<open>
  One output row per group of \<^verbatim>\<open>GROUP BY t.id, t.name, t.path\<close>. The two user names
  are bare columns beside two aggregates: SQLite takes both from one row of the group,
  and which row is its own choice. The model takes that choice as the parameter
  \<open>pick\<close>, the position of the row within the group.
\<close>

type_synonym join_row = "thread_rec \<times> post_rec option \<times> user_rec option \<times> user_rec option"

definition search_select :: "(join_row list \<Rightarrow> nat) \<Rightarrow> thread_rec \<Rightarrow> join_row list \<Rightarrow> thread_summary" where
  "search_select pick t rows =
     (let bare = (case drop (pick rows mod length rows) rows of
                    (t', p, u, u2) # _ \<Rightarrow> (u, u2)
                  | [] \<Rightarrow> (None, None))
      in \<lparr>s_id = thread_id t,
          s_name = thread_name t,
          s_path = thread_path t,
          s_post_count = int (length [p. (t', Some p, u, u2) \<leftarrow> rows]),
          s_last_poster = (case fst bare of Some u \<Rightarrow> user_name u | None \<Rightarrow> None),
          s_last_post_time = max_opt [post_time p. (t', Some p, u, u2) \<leftarrow> rows],
          s_created_time = min_opt [post_time p. (t', Some p, u, u2) \<leftarrow> rows],
          s_thread_creator = (case snd bare of Some u2 \<Rightarrow> user_name u2 | None \<Rightarrow> None)\<rparr>)"

definition search_groups ::
  "(join_row list \<Rightarrow> nat) \<Rightarrow> jsval \<Rightarrow> jsval \<Rightarrow> database \<Rightarrow> thread_summary list" where
  "search_groups pick query language db =
     (let rows = filter (\<lambda>(t, p, u, u2). search_where query language db t) (search_from db)
      in map (\<lambda>t. search_select pick t (filter (\<lambda>(t', p, u, u2). t' = t) rows))
           (remdups (map fst rows)))"

text \<open>The row object of the search, its properties in the order of the select list.\<close>

definition search_row :: "thread_summary \<Rightarrow> jsval" where
  "search_row r =
     JObj [(''id'', JNum (s_id r)),
           (''name'', JStr (s_name r)),
           (''path'', JStr (s_path r)),
           (''post_count'', JNum (s_post_count r)),
           (''last_post_time'', opt_text (s_last_post_time r)),
           (''created_time'', opt_text (s_created_time r)),
           (''last_poster'', opt_text (s_last_poster r)),
           (''thread_creator'', opt_text (s_thread_creator r))]"

definition searchThreads ::
  "(join_row list \<Rightarrow> nat) \<Rightarrow> jsval \<Rightarrow> jsval \<Rightarrow> database \<Rightarrow> jsval list" where
  "searchThreads pick query language db =
     map search_row
       (take 50 (order_by_desc s_last_post_time (search_groups pick query language db)))"


subsection \<open>getPosts\<close>

text \<open>
  \<^verbatim>\<open>SELECT p.*, u.name as username FROM posts p LEFT JOIN users u ON p.user_id = u.id
  WHERE p.thread_id = ? ORDER BY p.post_no ASC LIMIT ? OFFSET ?\<close>
\<close>

definition post_row :: "post_rec \<Rightarrow> user_rec option \<Rightarrow> jsval" where
  "post_row p u =
     JObj [(''id'', JNum (post_id p)),
           (''thread_id'', JNum (post_thread p)),
           (''post_no'', JNum (post_no p)),
           (''user_id'', (case post_user p of None \<Rightarrow> JNull | Some i \<Rightarrow> JNum i)),
           (''timestamp'', JStr (post_time p)),
           (''message'', JStr (post_message p)),
           (''username'', (case u of None \<Rightarrow> JNull | Some u' \<Rightarrow> opt_text (user_name u')))]"

definition getPosts :: "int \<Rightarrow> int \<Rightarrow> int \<Rightarrow> database \<Rightarrow> jsval list" where
  "getPosts threadId row_limit row_offset db =
     map (\<lambda>(p, u). post_row p u)
       (limit_offset row_limit row_offset
          (sort_key (\<lambda>(p, u). post_no p)
             [(p, u). p \<leftarrow> posts db,
                      u \<leftarrow> left_join (users db) (\<lambda>u. post_user p = Some (user_id u)),
                      post_thread p = threadId]))"

section \<open>Thread list route\<close>

text \<open>
  The query string of \<^verbatim>\<open>GET /api/threads\<close>; a parameter that is not given is
  \<^verbatim>\<open>undefined\<close>.
\<close>

record request =
  q_language :: jsval
  q_category :: jsval
  q_search :: jsval
  q_page :: jsval
  q_limit :: jsval

text \<open>
  What the handler takes from its surroundings: the date library, the clock reading of
  \<^verbatim>\<open>new Date().toISOString()\<close>, the engine's message text for an error, and the
  database engine's choice of the row for bare columns.
\<close>

record 'm env =
  env_moment :: "'m moment_lib"
  env_now :: ustring
  env_error_message :: "js_error \<Rightarrow> ustring"
  env_bare_row :: "join_row list \<Rightarrow> nat"

record http_response =
  http_status :: int
  http_body :: jsval

definition createApiResponse :: "jsval \<Rightarrow> ustring \<Rightarrow> int \<Rightarrow> ustring \<Rightarrow> jsval" where
  "createApiResponse data message status clock =
     JObj [(''success'', JBool (200 \<le> status \<and> status < 300)),
           (''status'', JNum status),
           (''message'', JStr message),
           (''data'', data),
           (''timestamp'', JStr clock)]"

definition createErrorResponse :: "ustring \<Rightarrow> int \<Rightarrow> jsval \<Rightarrow> ustring \<Rightarrow> jsval" where
  "createErrorResponse message status details clock =
     JObj [(''success'', JBool False),
           (''status'', JNum status),
           (''message'', JStr message),
           (''error'', details),
           (''timestamp'', JStr clock)]"

text \<open>A destructuring default, \<^verbatim>\<open>{ page = 1 }\<close>: it replaces \<^verbatim>\<open>undefined\<close> only.\<close>

definition default_param :: "jsval \<Rightarrow> jsval \<Rightarrow> jsval" where
  "default_param v d = (if v = JUndefined then d else v)"

text \<open>\<^verbatim>\<open>rows.map(f)\<close> for an \<open>f\<close> that may throw: the first exception ends the map.\<close>

fun map_throwing :: "('a \<Rightarrow> js_error + 'b) \<Rightarrow> 'a list \<Rightarrow> js_error + 'b list" where
  "map_throwing f [] = Inr []"
| "map_throwing f (x # xs) =
     (case f x of
        Inl e \<Rightarrow> Inl e
      | Inr y \<Rightarrow> (case map_throwing f xs of Inl e \<Rightarrow> Inl e | Inr ys \<Rightarrow> Inr (y # ys)))"

text \<open>
  \<^verbatim>\<open>router.get('/')\<close> of the threads router. The database is a value here, so the
  only exception the \<^verbatim>\<open>catch\<close> can see is one thrown while formatting.
\<close>

definition threads_route :: "'m env \<Rightarrow> database \<Rightarrow> request \<Rightarrow> http_response" where
  "threads_route env db req =
     (let pagination = validatePagination (default_param (q_page req) (JNum 1))
                         (default_param (q_limit req) (JNum 20));
          rows = (if truthy (q_search req)
                  then searchThreads (env_bare_row env) (q_search req) (q_language req) db
                  else getThreads (q_language req) (q_category req)
                         (limit pagination) (offset pagination) db)
      in case map_throwing (formatThreadForApi (env_moment env)) rows of
           Inl e \<Rightarrow>
             \<lparr>http_status = 500,
              http_body = createErrorResponse (lit ''Failed to fetch threads'') 500
                            (JStr (env_error_message env e)) (env_now env)\<rparr>
         | Inr formattedThreads \<Rightarrow>
             \<lparr>http_status = 200,
              http_body = createApiResponse
                (JObj [(''threads'', JArr formattedThreads),
                       (''pagination'',
                          JObj [(''page'', JNum (page pagination)),
                                (''limit'', JNum (limit pagination)),
                                (''hasMore'',
                                   JBool (int (length formattedThreads) = limit pagination))]),
                       (''filters'',
                          JObj [(''language'', q_language req),
                                (''category'', q_category req),
                                (''search'', q_search req)])])
                (lit ''Success'') 200 (env_now env)\<rparr>)"

text \<open>
  The pagination object the spec expects for page 2 of 45 threads at 20 per page, for
  comparison with what the route sends.
\<close>

definition spec_pagination_page_two :: jsval where
  "spec_pagination_page_two =
     JObj [(''page'', JNum 2), (''limit'', JNum 20), (''totalPages'', JNum 3),
           (''hasNext'', JBool True), (''hasPrev'', JBool True)]"

text \<open>A database for concrete runs: two users, three threads, three posts.\<close>

definition sample_db :: database where
  "sample_db =
     \<lparr>threads =
        [\<lparr>thread_id = 1, thread_name = lit ''Alpha'', thread_path = lit ''r/English/A''\<rparr>,
         \<lparr>thread_id = 2, thread_name = lit ''Beta'', thread_path = lit ''r/English/B''\<rparr>,
         \<lparr>thread_id = 3, thread_name = lit ''Gamma'', thread_path = lit ''r/Deutsch/B''\<rparr>],
      posts =
        [\<lparr>post_id = 10, post_thread = 1, post_no = 1, post_user = Some 5,
          post_time = lit ''01'', post_message = lit ''a FOO b''\<rparr>,
         \<lparr>post_id = 11, post_thread = 1, post_no = 2, post_user = None,
          post_time = lit ''09'', post_message = lit ''bar''\<rparr>,
         \<lparr>post_id = 12, post_thread = 2, post_no = 1, post_user = Some 6,
          post_time = lit ''05'', post_message = lit ''xfoo''\<rparr>],
      users =
        [\<lparr>user_id = 5, user_name = Some (lit ''ann'')\<rparr>,
         \<lparr>user_id = 6, user_name = None\<rparr>]\<rparr>"


text \<open>A database with 45 threads, all in the English section, and no posts.\<close>

definition english_db :: database where
  "english_db =
     \<lparr>threads = map (\<lambda>i. \<lparr>thread_id = i, thread_name = lit ''Thread'',
                          thread_path = lit ''Calendar/Champions of Regnum/English/General''\<rparr>)
                   [1..45],
      posts = [],
      users = []\<rparr>"

definition sample_env :: "ustring env" where
  "sample_env =
     \<lparr>env_moment = sample_moment,
      env_now = lit ''2025-01-01T00:00:00.000Z'',
      env_error_message = (\<lambda>e. lit ''TypeError''),
      env_bare_row = (\<lambda>rows. 0)\<rparr>"

definition page_two_request :: request where
  "page_two_request =
     \<lparr>q_language = JStr English, q_category = JUndefined, q_search = JUndefined,
      q_page = JStr (lit ''2''), q_limit = JStr (lit ''20'')\<rparr>"

text \<open>Reading the payload of a response: \<^verbatim>\<open>body.data.threads\<close> and \<^verbatim>\<open>body.data.pagination\<close>.\<close>

definition response_threads :: "http_response \<Rightarrow> jsval" where
  "response_threads r = get_prop (get_prop (http_body r) ''data'') ''threads''"

definition response_pagination :: "http_response \<Rightarrow> jsval" where
  "response_pagination r = get_prop (get_prop (http_body r) ''data'') ''pagination''"

section \<open>Properties of the path taxonomy resolver\<close>

lemma js_includes_sublist: "js_includes s pat = sublist pat s"
  by (induction s) (auto simp: sublist_Cons_right)

lemma length_js_split: "length (js_split sep s) = Suc (count_list s sep)"
  by (induction s) (auto split: list.splits)

lemma js_split_nonempty: "js_split sep s \<noteq> []"
  by (induction s) (auto split: list.splits)

lemma js_split_no_sep: "sep \<notin> set s \<Longrightarrow> js_split sep s = [s]"
  by (induction s) auto

lemma js_split_has_sep: "sep \<in> set s \<Longrightarrow> 2 \<le> length (js_split sep s)"
  by (induction s) (auto split: list.splits simp: js_split_nonempty Suc_le_eq)

lemma last_js_split:
  "last (js_split sep s) = rev (takeWhile (\<lambda>c. c \<noteq> sep) (rev s))"
proof (induction s)
  case Nil
  show ?case by simp
next
  case (Cons c cs)
  show ?case
  proof (cases "c = sep")
    case True
    then show ?thesis
      using Cons.IH by (auto simp: js_split_nonempty takeWhile_append)
  next
    case False
    show ?thesis
    proof (cases "sep \<in> set cs")
      case True
      then have "2 \<le> length (js_split sep cs)" by (rule js_split_has_sep)
      then obtain p q ps where "js_split sep cs = p # q # ps"
        by (cases "js_split sep cs"; cases "tl (js_split sep cs)") auto
      then show ?thesis
        using Cons.IH False True by (auto simp: takeWhile_append)
    next
      case no_sep: False
      then show ?thesis
        using False by (simp add: js_split_no_sep takeWhile_append)
    qed
  qed
qed

lemma getCategoryFromPath_JStr:
  "getCategoryFromPath (JStr p) =
     Inr (if 3 \<le> count_list p slash
          then rev (takeWhile (\<lambda>c. c \<noteq> slash) (rev p)) else General)"
proof -
  have "js_split slash p ! (length (js_split slash p) - 1) = last (js_split slash p)"
    by (simp add: last_conv_nth js_split_nonempty)
  then show ?thesis
    by (simp add: Let_def length_js_split last_js_split Suc_le_eq less_Suc_eq_le)
qed

lemma count_root_prefix: "count_list root_prefix slash = 2"
  by (simp add: root_prefix_def lit_def slash_def)

lemma getCategoryFromPath_canonical:
  assumes "slash \<notin> set cat"
  shows "getCategoryFromPath (JStr (root_prefix @ l @ slash # cat)) = Inr cat"
  using assms
  by (simp add: getCategoryFromPath_JStr count_root_prefix takeWhile_append
        del: getCategoryFromPath.simps)

lemmas language_names =
  Espanol_def English_def Portugues_def Deutsch_def Francais_def Italiano_def Other_def

lemma getLanguageFromPath_JStr:
  "getLanguageFromPath (JStr p) =
     Inr (case find (\<lambda>l. sublist (47 # l @ [47]) p)
                 [lit ''Espa'' @ [241] @ lit ''ol'', lit ''English'',
                  lit ''Portugu'' @ [234] @ lit ''s'', lit ''Deutsch'',
                  lit ''Fran'' @ [231] @ lit ''ais'', lit ''Italiano''] of
            Some l \<Rightarrow> l
          | None \<Rightarrow> lit ''Other'')"
  by (simp add: getLanguageFromPath_def lang_token_def slash_def language_names
        js_includes_sublist)

text \<open>
  C2. On every path string the language resolver returns a string, never an error. The
  six names are tried in the fixed order Espanol, English, Portugues, Deutsch,
  Francais, Italiano (spelt with their accented letters, the code points 241, 234 and
  231);
  the result is the first of them that occurs in the path between two slashes (code
  point 47), and "Other" when none does. A path with two recognised segments resolves
  to the one tried first; a name that is not enclosed in slashes does not count.
\<close>

theorem getLanguageFromPath_first_match:
  "getLanguageFromPath (JStr p) =
     Inr (case find (\<lambda>l. sublist (47 # l @ [47]) p)
                 [lit ''Espa'' @ [241] @ lit ''ol'', lit ''English'',
                  lit ''Portugu'' @ [234] @ lit ''s'', lit ''Deutsch'',
                  lit ''Fran'' @ [231] @ lit ''ais'', lit ''Italiano''] of
            Some l \<Rightarrow> l
          | None \<Rightarrow> lit ''Other'')"
  by (rule getLanguageFromPath_JStr)

theorem getLanguageFromPath_first_match_witness:
  "getLanguageFromPath (JStr (lit ''a/English/Espa'' @ [241] @ lit ''ol/b''))
     = Inr (lit ''Espa'' @ [241] @ lit ''ol'')
   \<and> getLanguageFromPath (JStr (lit ''a/Italiano/English/b'')) = Inr (lit ''English'')
   \<and> getLanguageFromPath (JStr (lit ''Calendar/Champions of Regnum/Deutsch/Allgemein''))
       = Inr (lit ''Deutsch'')
   \<and> getLanguageFromPath (JStr (lit ''a/english/b'')) = Inr (lit ''Other'')
   \<and> getLanguageFromPath (JStr (lit ''forum/MyEnglishThread'')) = Inr (lit ''Other'')
   \<and> getLanguageFromPath (JStr (lit ''English/General'')) = Inr (lit ''Other'')
   \<and> getLanguageFromPath (JStr (lit ''forum/English'')) = Inr (lit ''Other'')
   \<and> getLanguageFromPath (JStr [47, 70, 114, 97, 110, 231, 97, 105, 115, 47])
       = Inr [70, 114, 97, 110, 231, 97, 105, 115]"
  using getLanguageFromPath_first_match [of "lit ''a/English/Espa'' @ [241] @ lit ''ol/b''"]
    getLanguageFromPath_first_match [of "lit ''a/Italiano/English/b''"]
    getLanguageFromPath_first_match [of "lit ''Calendar/Champions of Regnum/Deutsch/Allgemein''"]
    getLanguageFromPath_first_match [of "lit ''a/english/b''"]
    getLanguageFromPath_first_match [of "lit ''forum/MyEnglishThread''"]
    getLanguageFromPath_first_match [of "lit ''English/General''"]
    getLanguageFromPath_first_match [of "lit ''forum/English''"]
    getLanguageFromPath_first_match [of "[47, 70, 114, 97, 110, 231, 97, 105, 115, 47]"]
  by (simp add: lit_def js_includes_sublist [symmetric])

text \<open>
  C3, as the spec states it, fails: on a path with five segments the code returns the
  last segment only, not everything after the prefix and the language.
\<close>

theorem getCategoryFromPath_remainder_counterexample:
  "4 \<le> length (js_split slash (root_prefix @ English @ lit ''/Guides/Classes''))
   \<and> getCategoryFromPath (JStr (root_prefix @ English @ lit ''/Guides/Classes''))
       = Inr (lit ''Classes'')
   \<and> spec_category_remainder (root_prefix @ English @ lit ''/Guides/Classes'')
       = lit ''Guides/Classes''"
  by (simp add: spec_category_remainder_def getLanguageFromPath_def lang_token_def
        language_names root_prefix_def lit_def slash_def)

text \<open>
  C3, amended. The number of slash-delimited segments is one more than the number of
  slashes. With fewer than four segments the category is "General"; with four or more it
  is the last segment, the text after the final slash. On a path made of the constant
  prefix, the resolved language, a slash and a category without a slash, that is the
  remainder the spec describes.
\<close>

theorem getCategoryFromPath_last_segment:
  "length (js_split slash p) = count_list p slash + 1
   \<and> (length (js_split slash p) < 4 \<longrightarrow> getCategoryFromPath (JStr p) = Inr General)
   \<and> (4 \<le> length (js_split slash p) \<longrightarrow>
        getCategoryFromPath (JStr p) = Inr (rev (takeWhile (\<lambda>c. c \<noteq> slash) (rev p))))
   \<and> (slash \<notin> set cat \<and> getLanguageFromPath (JStr (root_prefix @ l @ slash # cat)) = Inr l \<longrightarrow>
        getCategoryFromPath (JStr (root_prefix @ l @ slash # cat)) = Inr cat
        \<and> spec_category_remainder (root_prefix @ l @ slash # cat) = cat)"
proof -
  have "length (js_split slash p) = count_list p slash + 1"
    by (simp add: length_js_split)
  moreover have "length (js_split slash p) < 4 \<longrightarrow> getCategoryFromPath (JStr p) = Inr General"
    by (simp add: Let_def)
  moreover have "4 \<le> length (js_split slash p) \<longrightarrow>
      getCategoryFromPath (JStr p) = Inr (rev (takeWhile (\<lambda>c. c \<noteq> slash) (rev p)))"
    by (simp add: getCategoryFromPath_JStr length_js_split del: getCategoryFromPath.simps)
  moreover have "slash \<notin> set cat \<and> getLanguageFromPath (JStr (root_prefix @ l @ slash # cat)) = Inr l \<longrightarrow>
      getCategoryFromPath (JStr (root_prefix @ l @ slash # cat)) = Inr cat
      \<and> spec_category_remainder (root_prefix @ l @ slash # cat) = cat"
    by (simp add: getCategoryFromPath_canonical spec_category_remainder_def
          del: getCategoryFromPath.simps)
  ultimately show ?thesis by blast
qed

theorem getCategoryFromPath_last_segment_witness:
  "getCategoryFromPath (JStr (lit ''Calendar/Champions of Regnum/English'')) = Inr General
   \<and> getCategoryFromPath (JStr (lit ''a/b/c/d/e'')) = Inr (lit ''e'')
   \<and> getCategoryFromPath (JStr (root_prefix @ English @ slash # lit ''General discussion''))
       = Inr (lit ''General discussion'')
   \<and> spec_category_remainder (root_prefix @ English @ slash # lit ''General discussion'')
       = lit ''General discussion''"
proof -
  have short: "length (js_split slash (lit ''Calendar/Champions of Regnum/English'')) < 4"
    by (simp add: lit_def slash_def)
  have long: "4 \<le> length (js_split slash (lit ''a/b/c/d/e''))"
    by (simp add: lit_def slash_def)
  have cat: "slash \<notin> set (lit ''General discussion'')"
    by (simp add: lit_def slash_def)
  have lang: "getLanguageFromPath
      (JStr (root_prefix @ English @ slash # lit ''General discussion'')) = Inr English"
    by (simp add: getLanguageFromPath_def lang_token_def language_names root_prefix_def
          lit_def slash_def)
  show ?thesis
    using getCategoryFromPath_last_segment [of "lit ''Calendar/Champions of Regnum/English''"]
      getCategoryFromPath_last_segment [of "lit ''a/b/c/d/e''"]
      getCategoryFromPath_last_segment [of _ "lit ''General discussion''" English]
      short long cat lang
    by (simp add: lit_def slash_def del: getCategoryFromPath.simps)
qed

section \<open>Properties of the pagination calculator\<close>

lemma shift_count_small: "m < 2 ^ 53 \<Longrightarrow> shift_count m = 0"
  by (subst shift_count.simps) simp

lemma shift_count_big: "\<not> m < 2 ^ 53 \<Longrightarrow> shift_count m = Suc (shift_count (m div 2))"
  by (subst shift_count.simps) simp

text \<open>Below \<open>2^53\<close> in magnitude every integer is a double: rounding changes nothing.\<close>

lemma round_double_exact: "\<bar>n\<bar> < 2 ^ 53 \<Longrightarrow> round_double n = n"
  by (simp add: round_double_def shift_count_small Let_def sgn_if nat_less_iff)

lemma round_double_sample: "round_double 180143985094819800 = 180143985094819808"
  by (simp add: round_double_def shift_count_small shift_count_big Let_def)

lemma validatePagination_bounds:
  "1 \<le> page (validatePagination p l) \<and> 1 \<le> limit (validatePagination p l)
   \<and> limit (validatePagination p l) \<le> 100"
  by (simp add: validatePagination_def Let_def)

lemma validatePagination_offset:
  "offset (validatePagination p l)
     = round_double (round_double (page (validatePagination p l) - 1)
                       * limit (validatePagination p l))"
  by (simp add: validatePagination_def Let_def)

lemma limit_nonzero: "limit (validatePagination p l) \<noteq> 0"
  using validatePagination_bounds [of p l] by linarith

lemma products_bounded:
  fixes pg lm :: int
  assumes "1 \<le> pg" "1 \<le> lm" "lm \<le> 100"
  shows "pg * lm \<le> pg * 100" "lm \<le> pg * lm" "pg \<le> pg * lm"
    "(pg - 1) * lm = pg * lm - lm"
proof -
  show "pg * lm \<le> pg * 100" using assms by (intro mult_left_mono) auto
  show "lm \<le> pg * lm" using mult_right_mono [of 1 pg lm] assms by simp
  show "pg \<le> pg * lm" using mult_left_mono [of 1 lm pg] assms by simp
  show "(pg - 1) * lm = pg * lm - lm" by (simp add: algebra_simps)
qed

lemma offset_exact:
  assumes "page (validatePagination p l) * limit (validatePagination p l) < 2 ^ 53"
  shows "offset (validatePagination p l)
     = (page (validatePagination p l) - 1) * limit (validatePagination p l)"
proof -
  let ?pg = "page (validatePagination p l)" and ?lm = "limit (validatePagination p l)"
  note b = validatePagination_bounds [of p l]
  have pb: "?lm \<le> ?pg * ?lm" "?pg \<le> ?pg * ?lm" "(?pg - 1) * ?lm = ?pg * ?lm - ?lm"
    using products_bounded [of ?pg ?lm] b by blast+
  have "\<bar>?pg - 1\<bar> < 2 ^ 53" using b pb(2) assms by linarith
  then have r1: "round_double (?pg - 1) = ?pg - 1" by (rule round_double_exact)
  have "\<bar>(?pg - 1) * ?lm\<bar> < 2 ^ 53" unfolding pb(3) using b pb(1) assms by linarith
  then have r2: "round_double ((?pg - 1) * ?lm) = (?pg - 1) * ?lm" by (rule round_double_exact)
  show ?thesis by (simp only: validatePagination_offset r1 r2)
qed

lemma calculator_fields:
  assumes "page (validatePagination p l) * 100 < 2 ^ 53" and "0 \<le> tot" and "tot < 2 ^ 53"
  shows "\<exists>g. calculator p l tot url = Some g
     \<and> totalPages g = \<lceil>real_of_int tot / real_of_int (limit (validatePagination p l))\<rceil>
     \<and> hasNext g = (page (validatePagination p l) < totalPages g)
     \<and> hasPrev g = (1 < page (validatePagination p l))
     \<and> startItem g = (page (validatePagination p l) - 1) * limit (validatePagination p l) + 1
     \<and> endItem g = min (page (validatePagination p l) * limit (validatePagination p l)) tot"
proof -
  let ?pg = "page (validatePagination p l)" and ?lm = "limit (validatePagination p l)"
  note b = validatePagination_bounds [of p l]
  have pb: "?pg * ?lm \<le> ?pg * 100" "?lm \<le> ?pg * ?lm" "?pg \<le> ?pg * ?lm"
    "(?pg - 1) * ?lm = ?pg * ?lm - ?lm"
    using products_bounded [of ?pg ?lm] b by blast+
  have p53: "(2 :: int) ^ 53 = 9007199254740992" by simp
  have s: "\<bar>?pg\<bar> < 2 ^ 53" "\<bar>tot\<bar> < 2 ^ 53" "\<bar>?lm\<bar> < 2 ^ 53"
    "\<bar>?pg - 2\<bar> < 2 ^ 53" "\<bar>?pg + 2\<bar> < 2 ^ 53" "\<bar>?pg * ?lm\<bar> < 2 ^ 53"
    "\<bar>(?pg - 1) * ?lm\<bar> < 2 ^ 53" "\<bar>(?pg - 1) * ?lm + 1\<bar> < 2 ^ 53"
    unfolding pb(4) p53 using b pb(1,2,3) assms [unfolded p53] by linarith+
  have safe: "list_all safe_integer
      [?pg, tot, ?lm, ?pg - 2, ?pg + 2, ?pg * ?lm, (?pg - 1) * ?lm, (?pg - 1) * ?lm + 1]"
    by (simp only: list.pred_inject safe_integer_def s simp_thms)
  show ?thesis
    using limit_nonzero [of p l] safe
    by (simp add: calculator_def getPagination_def Let_def)
qed

lemma start_le_end_iff:
  fixes pg lim :: int
  assumes "1 \<le> lim"
  shows "(pg - 1) * lim + 1 \<le> min (pg * lim) tot
           \<longleftrightarrow> pg \<le> \<lceil>real_of_int tot / real_of_int lim\<rceil>"
proof -
  have pos: "0 < real_of_int lim" using assms by simp
  have "(pg - 1) * lim + 1 \<le> pg * lim" using assms by (simp add: algebra_simps)
  then have "(pg - 1) * lim + 1 \<le> min (pg * lim) tot \<longleftrightarrow> (pg - 1) * lim < tot"
    by auto
  also have "\<dots> \<longleftrightarrow> real_of_int ((pg - 1) * lim) < real_of_int tot"
    by (simp only: of_int_less_iff)
  also have "\<dots> \<longleftrightarrow> (real_of_int pg - 1) * real_of_int lim < real_of_int tot"
    by simp
  also have "\<dots> \<longleftrightarrow> real_of_int pg - 1 < real_of_int tot / real_of_int lim"
    using pos by (simp add: pos_less_divide_eq)
  also have "\<dots> \<longleftrightarrow> pg \<le> \<lceil>real_of_int tot / real_of_int lim\<rceil>"
    by (simp add: le_ceiling_iff)
  finally show ?thesis .
qed

lemmas parse_defs =
  validatePagination_def parseInt_def parse_int_string_def lit_def is_js_space_def
  digit_value_def number_or_def

lemma validate_2_20:
  "validatePagination (JStr (lit ''2'')) (JStr (lit ''20''))
     = \<lparr>page = 2, limit = 20, offset = 20\<rparr>"
  by (simp add: parse_defs round_double_exact)

lemma validate_5_20:
  "validatePagination (JStr (lit ''5'')) (JStr (lit ''20''))
     = \<lparr>page = 5, limit = 20, offset = 80\<rparr>"
  by (simp add: parse_defs round_double_exact)

lemma validate_largest:
  "validatePagination (JStr (lit ''9007199254740991'')) (JStr (lit ''20''))
     = \<lparr>page = 9007199254740991, limit = 20, offset = 180143985094819808\<rparr>"
  by (simp add: parse_defs round_double_exact round_double_sample)

text \<open>
  C1, as the spec states it, fails in three places. With no items and page 2 requested,
  hasPrev is true; with 45 items, limit 20 and page 5 requested, the display range
  starts at 81 and ends at 45; and with page 9007199254740991 and limit 20 requested
  the offset is the double nearest to (page - 1) * limit, 180143985094819808, where
  (page - 1) * limit is 180143985094819800.
\<close>

theorem calculator_claim_counterexample:
  "map_option hasPrev (calculator (JStr (lit ''2'')) (JStr (lit ''20'')) 0 []) = Some True
   \<and> map_option startItem (calculator (JStr (lit ''5'')) (JStr (lit ''20'')) 45 []) = Some 81
   \<and> map_option endItem (calculator (JStr (lit ''5'')) (JStr (lit ''20'')) 45 []) = Some 45
   \<and> page (validatePagination (JStr (lit ''9007199254740991'')) (JStr (lit ''20'')))
       = 9007199254740991
   \<and> limit (validatePagination (JStr (lit ''9007199254740991'')) (JStr (lit ''20''))) = 20
   \<and> offset (validatePagination (JStr (lit ''9007199254740991'')) (JStr (lit ''20'')))
       = 180143985094819808
   \<and> (9007199254740991 - 1) * 20 = (180143985094819800 :: int)"
proof -
  have s2: "page (validatePagination (JStr (lit ''2'')) (JStr (lit ''20''))) * 100 < 2 ^ 53"
    by (simp add: validate_2_20)
  have s5: "page (validatePagination (JStr (lit ''5'')) (JStr (lit ''20''))) * 100 < 2 ^ 53"
    by (simp add: validate_5_20)
  obtain g where g: "calculator (JStr (lit ''2'')) (JStr (lit ''20'')) 0 [] = Some g"
    "hasPrev g = (1 < page (validatePagination (JStr (lit ''2'')) (JStr (lit ''20''))))"
    using calculator_fields [OF s2, of 0 "[]"] by auto
  obtain h where h: "calculator (JStr (lit ''5'')) (JStr (lit ''20'')) 45 [] = Some h"
    "startItem h = (page (validatePagination (JStr (lit ''5'')) (JStr (lit ''20''))) - 1)
        * limit (validatePagination (JStr (lit ''5'')) (JStr (lit ''20''))) + 1"
    "endItem h = min (page (validatePagination (JStr (lit ''5'')) (JStr (lit ''20'')))
        * limit (validatePagination (JStr (lit ''5'')) (JStr (lit ''20'')))) 45"
    using calculator_fields [OF s5, of 45 "[]"] by auto
  show ?thesis
    using g h by (simp add: validate_2_20 validate_5_20 validate_largest)
qed

text \<open>
  C1, amended. For every requested page, requested limit and item count \<open>n\<close>: the page
  is at least 1 and the limit lies in 1..100. JavaScript numbers are doubles, so the
  arithmetic is that of the integers only while it stays below \<open>2^53\<close>: when
  page * limit is below \<open>2^53\<close>, offset = (page - 1) * limit; when page * 100 and \<open>n\<close>
  are below \<open>2^53\<close>, the calculator returns, totalPages = ceil(n / limit), which is 0
  with hasNext false when \<open>n = 0\<close>, hasNext holds exactly when page < totalPages,
  hasPrev exactly when page > 1 (whatever \<open>n\<close> is), endItem never exceeds \<open>n\<close>, and
  startItem \<open>\<le>\<close> endItem holds exactly when the page is one of the pages 1..totalPages.
\<close>

theorem calculator_contract:
  fixes n :: nat
  shows
  "1 \<le> page (validatePagination p l)
   \<and> 1 \<le> limit (validatePagination p l) \<and> limit (validatePagination p l) \<le> 100
   \<and> (page (validatePagination p l) * limit (validatePagination p l) < 2 ^ 53 \<longrightarrow>
        offset (validatePagination p l)
          = (page (validatePagination p l) - 1) * limit (validatePagination p l))
   \<and> (page (validatePagination p l) * 100 < 2 ^ 53 \<and> n < 2 ^ 53 \<longrightarrow>
       (\<exists>g. calculator p l (int n) url = Some g
        \<and> totalPages g = \<lceil>real n / real_of_int (limit (validatePagination p l))\<rceil>
        \<and> (n = 0 \<longrightarrow> totalPages g = 0 \<and> \<not> hasNext g)
        \<and> hasNext g = (page (validatePagination p l) < totalPages g)
        \<and> hasPrev g = (1 < page (validatePagination p l))
        \<and> endItem g \<le> int n
        \<and> (startItem g \<le> endItem g \<longleftrightarrow> page (validatePagination p l) \<le> totalPages g)))"
proof -
  note b = validatePagination_bounds [of p l]
  have off: "page (validatePagination p l) * limit (validatePagination p l) < 2 ^ 53 \<longrightarrow>
        offset (validatePagination p l)
          = (page (validatePagination p l) - 1) * limit (validatePagination p l)"
    using offset_exact [of p l] by blast
  have calc: "\<exists>g. calculator p l (int n) url = Some g
        \<and> totalPages g = \<lceil>real n / real_of_int (limit (validatePagination p l))\<rceil>
        \<and> (n = 0 \<longrightarrow> totalPages g = 0 \<and> \<not> hasNext g)
        \<and> hasNext g = (page (validatePagination p l) < totalPages g)
        \<and> hasPrev g = (1 < page (validatePagination p l))
        \<and> endItem g \<le> int n
        \<and> (startItem g \<le> endItem g \<longleftrightarrow> page (validatePagination p l) \<le> totalPages g)"
    if small: "page (validatePagination p l) * 100 < 2 ^ 53" "n < 2 ^ 53"
  proof -
    have n: "0 \<le> int n" "int n < 2 ^ 53"
      using small(2) by (simp_all add: of_nat_less_numeral_power_cancel_iff)
    obtain g where g: "calculator p l (int n) url = Some g"
      "totalPages g = \<lceil>real_of_int (int n) / real_of_int (limit (validatePagination p l))\<rceil>"
      "hasNext g = (page (validatePagination p l) < totalPages g)"
      "hasPrev g = (1 < page (validatePagination p l))"
      "startItem g = (page (validatePagination p l) - 1) * limit (validatePagination p l) + 1"
      "endItem g = min (page (validatePagination p l) * limit (validatePagination p l)) (int n)"
      using calculator_fields [OF small(1) n, of url] by blast
    have tp: "totalPages g = \<lceil>real n / real_of_int (limit (validatePagination p l))\<rceil>"
      using g(2) by simp
    have zero: "n = 0 \<longrightarrow> totalPages g = 0 \<and> \<not> hasNext g"
      using g(3) tp b by auto
    have e: "endItem g \<le> int n"
      using g(6) by simp
    have se: "startItem g \<le> endItem g \<longleftrightarrow> page (validatePagination p l) \<le> totalPages g"
      using start_le_end_iff [of "limit (validatePagination p l)"
          "page (validatePagination p l)" "int n"] b g(2,5,6) by simp
    show ?thesis
      using g(1,3,4) tp zero e se by blast
  qed
  show ?thesis
    using b off calc by blast
qed

theorem calculator_contract_witness:
  "(\<exists>g. calculator (JStr (lit ''2'')) (JStr (lit ''20'')) (int 0) [] = Some g
     \<and> totalPages g = 0 \<and> \<not> hasNext g \<and> hasPrev g \<and> endItem g \<le> 0
     \<and> \<not> startItem g \<le> endItem g)
   \<and> (\<exists>g. calculator (JStr (lit ''2'')) (JStr (lit ''20'')) (int 45) [] = Some g
     \<and> totalPages g = 3 \<and> hasNext g \<and> hasPrev g \<and> endItem g \<le> 45
     \<and> startItem g \<le> endItem g)
   \<and> offset (validatePagination (JStr (lit ''2'')) (JStr (lit ''20''))) = 20"
  using calculator_contract [of "JStr (lit ''2'')" "JStr (lit ''20'')" 0 "[]"]
    calculator_contract [of "JStr (lit ''2'')" "JStr (lit ''20'')" 45 "[]"]
  by (auto simp: validate_2_20)

section \<open>Properties of the result formatter\<close>

text \<open>
  What the loop returns: the first format of the list that the library does not find
  invalid decides. If the library parsed the timestamp and rendered it, the rendering is
  returned; if the library threw, at the parse or at the rendering, the timestamp
  itself is; and so it is when the library finds every format invalid.
\<close>

lemma try_formats_find:
  "try_formats lib (JStr s) fmts =
     JStr (case find (\<lambda>fmt. moment_parse lib (JStr s) fmt \<noteq> Invalid) fmts of
        None \<Rightarrow> s
      | Some fmt \<Rightarrow>
          (case moment_parse lib (JStr s) fmt of
             Valid dt \<Rightarrow>
               (case moment_format lib dt canonical_format of Some r \<Rightarrow> r | None \<Rightarrow> s)
           | _ \<Rightarrow> s))"
  by (induction fmts)
     (auto simp: attempt_format_def split: attempt.splits option.splits)

lemma formatTimestamp_try_all:
  "s \<noteq> [] \<Longrightarrow>
     formatTimestamp lib (JStr s) = try_formats lib (JStr s) (primary_format # formats)"
  by (simp add: formatTimestamp_def)

lemma formatTimestamp_falsy:
  "\<not> truthy v \<Longrightarrow> formatTimestamp lib v = JStr (lit ''Unknown'')"
  by (simp add: formatTimestamp_def Unknown_def)

lemma formatTimestamp_find:
  assumes "s \<noteq> []"
  shows "formatTimestamp lib (JStr s) =
     JStr (case find (\<lambda>fmt. moment_parse lib (JStr s) fmt \<noteq> Invalid)
                  [lit ''DD-MM-YYYY, hh:mm A'', lit ''MM-DD-YYYY, hh:mm A'',
                   lit ''DD/MM/YYYY, hh:mm A'', lit ''MM/DD/YYYY, hh:mm A'',
                   lit ''YYYY-MM-DD hh:mm A''] of
        None \<Rightarrow> s
      | Some fmt \<Rightarrow>
          (case moment_parse lib (JStr s) fmt of
             Valid dt \<Rightarrow>
               (case moment_format lib dt
                       (lit ''MMM D, YYYY '' @ [92] @ lit ''a'' @ [92] @ lit ''t h:mm A'') of
                  Some r \<Rightarrow> r
                | None \<Rightarrow> s)
           | _ \<Rightarrow> s))"
  unfolding formatTimestamp_try_all [OF assms] try_formats_find
  by (simp only: primary_format_def formats_def canonical_format_def)

text \<open>
  C7, as the spec states it, fails on the empty string: the library finds it invalid
  under each of the five formats, and the normalizer returns "Unknown", not the original
  (empty) string.
\<close>

theorem formatTimestamp_empty_counterexample:
  "list_all (\<lambda>fmt. moment_parse sample_moment (JStr []) fmt = Invalid)
      [lit ''DD-MM-YYYY, hh:mm A'', lit ''MM-DD-YYYY, hh:mm A'',
       lit ''DD/MM/YYYY, hh:mm A'', lit ''MM/DD/YYYY, hh:mm A'',
       lit ''YYYY-MM-DD hh:mm A'']
   \<and> formatTimestamp sample_moment (JStr []) = JStr (lit ''Unknown'')
   \<and> lit ''Unknown'' \<noteq> []"
  by (simp add: sample_moment_def formatTimestamp_def Unknown_def lit_def)

text \<open>
  C7, amended. For every non-empty timestamp string the five formats are tried in their
  fixed order: day-month-year with dashes and a trailing twelve-hour time first, then
  month-day-year with dashes, day/month/year, month/day/year and year-month-day. The
  first format under which the library does not report the timestamp invalid decides:
  if the library parsed the timestamp, the result is its rendering in the canonical
  format (month name, day, year, the word "at", twelve-hour time); if the library threw at the parse or throws at the
  rendering, the result is the original string. A string invalid under all five formats
  is returned unchanged.
\<close>

theorem formatTimestamp_normalizes:
  assumes "s \<noteq> []"
  shows "formatTimestamp lib (JStr s) =
     JStr (case find (\<lambda>fmt. moment_parse lib (JStr s) fmt \<noteq> Invalid)
                  [lit ''DD-MM-YYYY, hh:mm A'', lit ''MM-DD-YYYY, hh:mm A'',
                   lit ''DD/MM/YYYY, hh:mm A'', lit ''MM/DD/YYYY, hh:mm A'',
                   lit ''YYYY-MM-DD hh:mm A''] of
        None \<Rightarrow> s
      | Some fmt \<Rightarrow>
          (case moment_parse lib (JStr s) fmt of
             Valid dt \<Rightarrow>
               (case moment_format lib dt
                       (lit ''MMM D, YYYY '' @ [92] @ lit ''a'' @ [92] @ lit ''t h:mm A'') of
                  Some r \<Rightarrow> r
                | None \<Rightarrow> s)
           | Threw \<Rightarrow> s
           | Invalid \<Rightarrow> s))"
  using formatTimestamp_find [OF assms, of lib]
  by (simp split: option.splits attempt.splits)

theorem formatTimestamp_normalizes_witness:
  "formatTimestamp sample_moment (JStr (lit ''05-09-2008, 09:39 PM''))
     = JStr (lit ''Sep 5, 2008 at 9:39 PM'')
   \<and> formatTimestamp sample_moment (JStr (lit ''12-31-2008, 09:39 PM''))
     = JStr (lit ''Dec 31, 2008 at 9:39 PM'')
   \<and> formatTimestamp sample_moment (JStr (lit ''yesterday'')) = JStr (lit ''yesterday'')
   \<and> formatTimestamp throwing_moment (JStr (lit ''12-31-2008, 09:39 PM''))
     = JStr (lit ''12-31-2008, 09:39 PM'')
   \<and> formatTimestamp unrenderable_moment (JStr (lit ''12-31-2008, 09:39 PM''))
     = JStr (lit ''12-31-2008, 09:39 PM'')"
proof -
  have ne: "lit ''05-09-2008, 09:39 PM'' \<noteq> []" "lit ''12-31-2008, 09:39 PM'' \<noteq> []"
    "lit ''yesterday'' \<noteq> []"
    by (simp_all add: lit_def)
  have r1: "formatTimestamp sample_moment (JStr (lit ''05-09-2008, 09:39 PM''))
     = JStr (lit ''Sep 5, 2008 at 9:39 PM'')"
    using formatTimestamp_normalizes [OF ne(1), of sample_moment]
    by (simp add: sample_moment_def lit_def)
  have r2: "formatTimestamp sample_moment (JStr (lit ''12-31-2008, 09:39 PM''))
     = JStr (lit ''Dec 31, 2008 at 9:39 PM'')"
    using formatTimestamp_normalizes [OF ne(2), of sample_moment]
    by (simp add: sample_moment_def lit_def)
  have r3: "formatTimestamp sample_moment (JStr (lit ''yesterday'')) = JStr (lit ''yesterday'')"
    using formatTimestamp_normalizes [OF ne(3), of sample_moment]
    by (simp add: sample_moment_def lit_def)
  have r4: "formatTimestamp throwing_moment (JStr (lit ''12-31-2008, 09:39 PM''))
     = JStr (lit ''12-31-2008, 09:39 PM'')"
    using formatTimestamp_normalizes [OF ne(2), of throwing_moment]
    by (simp add: throwing_moment_def lit_def)
  have r5: "formatTimestamp unrenderable_moment (JStr (lit ''12-31-2008, 09:39 PM''))
     = JStr (lit ''12-31-2008, 09:39 PM'')"
    using formatTimestamp_normalizes [OF ne(2), of unrenderable_moment]
    by (simp add: unrenderable_moment_def lit_def)
  show ?thesis
    by (simp only: r1 r2 r3 r4 r5 simp_thms)
qed

lemma get_prop_formatThread:
  assumes "truthy thread" and "get_prop thread ''path'' = JStr p"
  shows "\<exists>out. formatThreadForApi lib thread = Inr out
     \<and> get_prop out ''lastPostTime'' = optional_timestamp lib (get_prop thread ''last_post_time'')
     \<and> get_prop out ''createdTime'' = optional_timestamp lib (get_prop thread ''created_time'')"
proof -
  obtain l where l: "getLanguageFromPath (JStr p) = Inr l"
    using getLanguageFromPath_JStr [of p] by blast
  obtain c where c: "getCategoryFromPath (JStr p) = Inr c"
    using getCategoryFromPath_JStr [of p] by blast
  show ?thesis
    using assms l c by (simp add: formatThreadForApi_def del: getCategoryFromPath.simps)
qed

text \<open>
  C6. Each of the three formatters returns null for a null and for an undefined input;
  none of them takes an error branch there.
\<close>

theorem formatters_null_input:
  "formatThreadForApi lib JNull = Inr JNull
   \<and> formatThreadForApi lib JUndefined = Inr JNull
   \<and> formatUserForApi lib JNull = JNull
   \<and> formatUserForApi lib JUndefined = JNull
   \<and> formatPostForApi lib sanitizeHtml JNull = JNull
   \<and> formatPostForApi lib sanitizeHtml JUndefined = JNull"
  by (simp add: formatThreadForApi_def formatUserForApi_def formatPostForApi_def)

lemma set_limit_offset: "set (limit_offset n m xs) \<subseteq> set xs"
  by (auto simp: limit_offset_def dest: in_set_takeD in_set_dropD)

lemma getPosts_rows:
  assumes "row \<in> set (getPosts tid n m db)"
  shows "\<exists>p u. row = post_row p u \<and> p \<in> set (posts db) \<and> post_thread p = tid
           \<and> u \<in> set (left_join (users db) (\<lambda>u. post_user p = Some (user_id u)))"
proof -
  let ?joined = "[(p, u). p \<leftarrow> posts db,
                      u \<leftarrow> left_join (users db) (\<lambda>u. post_user p = Some (user_id u)),
                      post_thread p = tid]"
  have "set (limit_offset n m (sort_key (\<lambda>(p, u). post_no p) ?joined)) \<subseteq> set ?joined"
    using set_limit_offset [of n m "sort_key (\<lambda>(p, u). post_no p) ?joined"]
    by (simp only: set_sort)
  with assms obtain p u where "row = post_row p u" "(p, u) \<in> set ?joined"
    by (auto simp: getPosts_def)
  then show ?thesis by (auto split: if_splits)
qed

lemma guest_row:
  assumes "post_user p = None \<or> (\<forall>u \<in> set (users db). post_user p \<noteq> Some (user_id u))"
    and "u \<in> set (left_join (users db) (\<lambda>u. post_user p = Some (user_id u)))"
  shows "get_prop (post_row p u) ''username'' = JNull"
proof -
  have "filter (\<lambda>u. post_user p = Some (user_id u)) (users db) = []"
    using assms(1) by (auto simp: filter_empty_conv)
  then have "u = None" using assms(2) by (simp add: left_join_def)
  then show ?thesis by (simp add: post_row_def)
qed

lemma formatPost_falsy_username:
  assumes "truthy post" and "\<not> truthy (get_prop post ''username'')"
  shows "get_prop (formatPostForApi lib sanitizeHtml post) ''username'' = JStr (lit ''Guest'')"
  using assms by (simp add: formatPostForApi_def js_or_def)

text \<open>
  C9. For every post row whose username field is null or missing, the formatted post
  carries the username "Guest". The rows that the post query returns for a thread are
  such rows whenever the post has no user identifier or one that names no user: the
  left join then leaves the username null.
\<close>

theorem formatPostForApi_guest:
  "(map_of row ''username'' = None \<or> map_of row ''username'' = Some JNull
      \<or> map_of row ''username'' = Some JUndefined \<longrightarrow>
      get_prop (formatPostForApi lib sanitizeHtml (JObj row)) ''username''
        = JStr (lit ''Guest''))
   \<and> (\<forall>r \<in> set (getPosts tid n m db). \<exists>p u.
         r = post_row p u \<and> p \<in> set (posts db) \<and> post_thread p = tid
         \<and> (post_user p = None \<or> (\<forall>u \<in> set (users db). post_user p \<noteq> Some (user_id u)) \<longrightarrow>
              get_prop r ''username'' = JNull
              \<and> get_prop (formatPostForApi lib sanitizeHtml r) ''username''
                  = JStr (lit ''Guest'')))"
proof -
  have a: "get_prop (formatPostForApi lib sanitizeHtml (JObj row)) ''username''
        = JStr (lit ''Guest'')"
    if "map_of row ''username'' = None \<or> map_of row ''username'' = Some JNull
      \<or> map_of row ''username'' = Some JUndefined"
    using that by (intro formatPost_falsy_username) auto
  have b: "\<exists>p u.
         r = post_row p u \<and> p \<in> set (posts db) \<and> post_thread p = tid
         \<and> (post_user p = None \<or> (\<forall>u \<in> set (users db). post_user p \<noteq> Some (user_id u)) \<longrightarrow>
              get_prop r ''username'' = JNull
              \<and> get_prop (formatPostForApi lib sanitizeHtml r) ''username''
                  = JStr (lit ''Guest''))"
    if "r \<in> set (getPosts tid n m db)" for r
  proof -
    from getPosts_rows [OF that] obtain p u where pu: "r = post_row p u" "p \<in> set (posts db)"
      "post_thread p = tid"
      "u \<in> set (left_join (users db) (\<lambda>u. post_user p = Some (user_id u)))"
      by blast
    have "get_prop r ''username'' = JNull
        \<and> get_prop (formatPostForApi lib sanitizeHtml r) ''username'' = JStr (lit ''Guest'')"
      if g: "post_user p = None \<or> (\<forall>u \<in> set (users db). post_user p \<noteq> Some (user_id u))"
    proof -
      have n: "get_prop r ''username'' = JNull"
        unfolding pu(1) using g pu(4) by (rule guest_row)
      have t: "truthy r" by (simp add: pu(1) post_row_def)
      from formatPost_falsy_username [OF t, of lib sanitizeHtml] n show ?thesis by simp
    qed
    with pu show ?thesis by blast
  qed
  show ?thesis using a b by blast
qed

theorem formatPostForApi_guest_witness:
  "get_prop (formatPostForApi sample_moment (\<lambda>html opts. to_string html)
       (JObj [(''id'', JNum 7), (''thread_id'', JNum 3), (''post_no'', JNum 1),
              (''user_id'', JNum 0), (''timestamp'', JStr (lit ''05-09-2008, 09:39 PM'')),
              (''message'', JStr (lit ''hello'')), (''username'', JNull)])) ''username''
     = JStr (lit ''Guest'')
   \<and> get_prop (formatPostForApi sample_moment (\<lambda>html opts. to_string html)
       (JObj [(''id'', JNum 7), (''message'', JStr (lit ''hello''))])) ''username''
     = JStr (lit ''Guest'')
   \<and> map (\<lambda>row. get_prop
             (formatPostForApi sample_moment (\<lambda>html opts. to_string html) row) ''username'')
         (getPosts 1 20 0 sample_db)
     = [JStr (lit ''ann''), JStr (lit ''Guest'')]"
proof -
  have rows: "map (\<lambda>row. get_prop
             (formatPostForApi sample_moment (\<lambda>html opts. to_string html) row) ''username'')
         (getPosts 1 20 0 sample_db)
     = [JStr (lit ''ann''), JStr (lit ''Guest'')]"
    by (simp add: getPosts_def sample_db_def left_join_def limit_offset_def post_row_def
          formatPostForApi_def js_or_def opt_text_def lit_def)
  show ?thesis
    using formatPostForApi_guest [of "[(''id'', JNum 7), (''thread_id'', JNum 3),
          (''post_no'', JNum 1), (''user_id'', JNum 0),
          (''timestamp'', JStr (lit ''05-09-2008, 09:39 PM'')),
          (''message'', JStr (lit ''hello'')), (''username'', JNull)]"
        sample_moment "\<lambda>html opts. to_string html"]
      formatPostForApi_guest [of "[(''id'', JNum 7), (''message'', JStr (lit ''hello''))]"
        sample_moment "\<lambda>html opts. to_string html"]
      rows
    by simp
qed

text \<open>
  C10. The normalizer returns "Unknown" for null, for undefined and for the empty
  string. The entity formatters do not pass an absent timestamp field to it: each
  timestamp field of a thread row (with a string path), of a user row and of a post row
  that is null, missing or empty gets null in the corresponding output field, whatever
  the other fields of the row hold.
\<close>

theorem absent_timestamps:
  "formatTimestamp lib JNull = JStr (lit ''Unknown'')
   \<and> formatTimestamp lib JUndefined = JStr (lit ''Unknown'')
   \<and> formatTimestamp lib (JStr []) = JStr (lit ''Unknown'')
   \<and> (map_of row ''path'' = Some (JStr p) \<and> \<not> truthy (get_prop (JObj row) ''last_post_time'') \<longrightarrow>
       (\<exists>out. formatThreadForApi lib (JObj row) = Inr out
          \<and> get_prop out ''lastPostTime'' = JNull))
   \<and> (map_of row ''path'' = Some (JStr p) \<and> \<not> truthy (get_prop (JObj row) ''created_time'') \<longrightarrow>
       (\<exists>out. formatThreadForApi lib (JObj row) = Inr out
          \<and> get_prop out ''createdTime'' = JNull))
   \<and> (\<not> truthy (get_prop (JObj row) ''first_post'') \<longrightarrow>
        get_prop (formatUserForApi lib (JObj row)) ''firstPost'' = JNull)
   \<and> (\<not> truthy (get_prop (JObj row) ''last_post'') \<longrightarrow>
        get_prop (formatUserForApi lib (JObj row)) ''lastPost'' = JNull)
   \<and> (\<not> truthy (get_prop (JObj row) ''timestamp'') \<longrightarrow>
        get_prop (formatPostForApi lib sanitizeHtml (JObj row)) ''timestamp'' = JNull)"
proof -
  have n: "formatTimestamp lib JNull = JStr (lit ''Unknown'')"
    "formatTimestamp lib JUndefined = JStr (lit ''Unknown'')"
    "formatTimestamp lib (JStr []) = JStr (lit ''Unknown'')"
    by (simp_all add: formatTimestamp_falsy)
  have t1: "\<exists>out. formatThreadForApi lib (JObj row) = Inr out
          \<and> get_prop out ''lastPostTime'' = JNull"
    if "map_of row ''path'' = Some (JStr p)" "\<not> truthy (get_prop (JObj row) ''last_post_time'')"
  proof -
    have "get_prop (JObj row) ''path'' = JStr p" using that(1) by simp
    from get_prop_formatThread [OF _ this, of lib] that(2)
    show ?thesis by (auto simp: optional_timestamp_def)
  qed
  have t2: "\<exists>out. formatThreadForApi lib (JObj row) = Inr out
          \<and> get_prop out ''createdTime'' = JNull"
    if "map_of row ''path'' = Some (JStr p)" "\<not> truthy (get_prop (JObj row) ''created_time'')"
  proof -
    have "get_prop (JObj row) ''path'' = JStr p" using that(1) by simp
    from get_prop_formatThread [OF _ this, of lib] that(2)
    show ?thesis by (auto simp: optional_timestamp_def)
  qed
  have u1: "get_prop (formatUserForApi lib (JObj row)) ''firstPost'' = JNull"
    if "\<not> truthy (get_prop (JObj row) ''first_post'')"
    using that by (simp add: formatUserForApi_def optional_timestamp_def)
  have u2: "get_prop (formatUserForApi lib (JObj row)) ''lastPost'' = JNull"
    if "\<not> truthy (get_prop (JObj row) ''last_post'')"
    using that by (simp add: formatUserForApi_def optional_timestamp_def)
  have p1: "get_prop (formatPostForApi lib sanitizeHtml (JObj row)) ''timestamp'' = JNull"
    if "\<not> truthy (get_prop (JObj row) ''timestamp'')"
    using that by (simp add: formatPostForApi_def optional_timestamp_def)
  show ?thesis using n t1 t2 u1 u2 p1 by blast
qed

theorem absent_timestamps_witness:
  "(\<exists>out. formatThreadForApi sample_moment
        (JObj [(''id'', JNum 1), (''path'', JStr (lit ''a/English/b'')),
               (''last_post_time'', JNull),
               (''created_time'', JStr (lit ''05-09-2008, 09:39 PM''))]) = Inr out
      \<and> get_prop out ''lastPostTime'' = JNull
      \<and> get_prop out ''createdTime'' = JStr (lit ''Sep 5, 2008 at 9:39 PM''))
   \<and> (\<exists>out. formatThreadForApi sample_moment
        (JObj [(''id'', JNum 1), (''path'', JStr (lit ''a/English/b'')),
               (''last_post_time'', JStr (lit ''05-09-2008, 09:39 PM'')),
               (''created_time'', JStr [])]) = Inr out
      \<and> get_prop out ''lastPostTime'' = JStr (lit ''Sep 5, 2008 at 9:39 PM'')
      \<and> get_prop out ''createdTime'' = JNull)
   \<and> get_prop (formatUserForApi sample_moment
        (JObj [(''id'', JNum 1), (''first_post'', JStr (lit ''05-09-2008, 09:39 PM''))]))
          ''lastPost'' = JNull
   \<and> get_prop (formatUserForApi sample_moment
        (JObj [(''id'', JNum 1), (''last_post'', JStr (lit ''05-09-2008, 09:39 PM''))]))
          ''firstPost'' = JNull
   \<and> get_prop (formatPostForApi sample_moment (\<lambda>html opts. to_string html)
        (JObj [(''id'', JNum 1), (''timestamp'', JStr [])])) ''timestamp'' = JNull"
proof -
  let ?r1 = "[(''id'', JNum 1), (''path'', JStr (lit ''a/English/b'')),
               (''last_post_time'', JNull),
               (''created_time'', JStr (lit ''05-09-2008, 09:39 PM''))]"
  let ?r2 = "[(''id'', JNum 1), (''path'', JStr (lit ''a/English/b'')),
               (''last_post_time'', JStr (lit ''05-09-2008, 09:39 PM'')),
               (''created_time'', JStr [])]"
  have ne: "lit ''05-09-2008, 09:39 PM'' \<noteq> []" by (simp add: lit_def)
  have ft: "formatTimestamp sample_moment (JStr (lit ''05-09-2008, 09:39 PM''))
      = JStr (lit ''Sep 5, 2008 at 9:39 PM'')"
    unfolding formatTimestamp_find [OF ne] by (simp add: sample_moment_def lit_def)
  have c1: "\<exists>out. formatThreadForApi sample_moment (JObj ?r1) = Inr out
      \<and> get_prop out ''lastPostTime'' = JNull
      \<and> get_prop out ''createdTime'' = JStr (lit ''Sep 5, 2008 at 9:39 PM'')"
  proof -
    have "get_prop (JObj ?r1) ''path'' = JStr (lit ''a/English/b'')" by simp
    from get_prop_formatThread [OF _ this, of sample_moment]
    obtain out where out: "formatThreadForApi sample_moment (JObj ?r1) = Inr out"
      "get_prop out ''createdTime''
         = optional_timestamp sample_moment (get_prop (JObj ?r1) ''created_time'')"
      by auto
    from absent_timestamps [of sample_moment ?r1 "lit ''a/English/b''"] out(1)
    have "get_prop out ''lastPostTime'' = JNull" by simp
    moreover have "get_prop out ''createdTime'' = JStr (lit ''Sep 5, 2008 at 9:39 PM'')"
      using ne by (simp add: out(2) optional_timestamp_def ft)
    ultimately show ?thesis using out(1) by simp
  qed
  have c2: "\<exists>out. formatThreadForApi sample_moment (JObj ?r2) = Inr out
      \<and> get_prop out ''lastPostTime'' = JStr (lit ''Sep 5, 2008 at 9:39 PM'')
      \<and> get_prop out ''createdTime'' = JNull"
  proof -
    have "get_prop (JObj ?r2) ''path'' = JStr (lit ''a/English/b'')" by simp
    from get_prop_formatThread [OF _ this, of sample_moment]
    obtain out where out: "formatThreadForApi sample_moment (JObj ?r2) = Inr out"
      "get_prop out ''lastPostTime''
         = optional_timestamp sample_moment (get_prop (JObj ?r2) ''last_post_time'')"
      by auto
    from absent_timestamps [of sample_moment ?r2 "lit ''a/English/b''"] out(1)
    have "get_prop out ''createdTime'' = JNull" by simp
    moreover have "get_prop out ''lastPostTime'' = JStr (lit ''Sep 5, 2008 at 9:39 PM'')"
      using ne by (simp add: out(2) optional_timestamp_def ft)
    ultimately show ?thesis using out(1) by simp
  qed
  have c3: "get_prop (formatUserForApi sample_moment
        (JObj [(''id'', JNum 1), (''first_post'', JStr (lit ''05-09-2008, 09:39 PM''))]))
          ''lastPost'' = JNull"
    using absent_timestamps [of sample_moment
        "[(''id'', JNum 1), (''first_post'', JStr (lit ''05-09-2008, 09:39 PM''))]"]
    by simp
  have c4: "get_prop (formatUserForApi sample_moment
        (JObj [(''id'', JNum 1), (''last_post'', JStr (lit ''05-09-2008, 09:39 PM''))]))
          ''firstPost'' = JNull"
    using absent_timestamps [of sample_moment
        "[(''id'', JNum 1), (''last_post'', JStr (lit ''05-09-2008, 09:39 PM''))]"]
    by simp
  have c5: "get_prop (formatPostForApi sample_moment (\<lambda>html opts. to_string html)
        (JObj [(''id'', JNum 1), (''timestamp'', JStr [])])) ''timestamp'' = JNull"
    using absent_timestamps [of sample_moment "[(''id'', JNum 1), (''timestamp'', JStr [])]"
        _ "\<lambda>html opts. to_string html"]
    by simp
  show ?thesis
    by (intro conjI c1 c2 c3 c4 c5)
qed

section \<open>Properties of the database layer and the thread list route\<close>


lemma length_insert_desc: "length (insert_desc key x xs) = Suc (length xs)"
  by (induction xs) auto



lemma length_order_by_desc: "length (order_by_desc key xs) = length xs"
  by (induction xs) (auto simp: order_by_desc_def length_insert_desc)


lemma map_throwing_Inr_D: "map_throwing f xs = Inr ys \<Longrightarrow> map f xs = map Inr ys"
  by (induction xs arbitrary: ys) (auto split: sum.splits)

lemma map_throwing_Inr_I: "map f xs = map Inr ys \<Longrightarrow> map_throwing f xs = Inr ys"
proof (induction xs arbitrary: ys)
  case Nil
  then show ?case by simp
next
  case (Cons x xs)
  then obtain z zs where ys: "ys = z # zs" by (cases ys) auto
  with Cons.prems have "f x = Inr z" "map f xs = map Inr zs" by auto
  with Cons.IH [of zs] show ?case by (simp add: ys)
qed

lemma threads_route_ok:
  assumes "map (formatThreadForApi (env_moment env)) rows = map Inr items"
    and "rows = (if truthy (q_search req)
                  then searchThreads (env_bare_row env) (q_search req) (q_language req) db
                  else getThreads (q_language req) (q_category req)
                         (limit (validatePagination (default_param (q_page req) (JNum 1))
                         (default_param (q_limit req) (JNum 20)))) (offset (validatePagination (default_param (q_page req) (JNum 1))
                         (default_param (q_limit req) (JNum 20)))) db)"
  shows "http_status (threads_route env db req) = 200
    \<and> response_threads (threads_route env db req) = JArr items
    \<and> response_pagination (threads_route env db req) =
        JObj [(''page'', JNum (page (validatePagination (default_param (q_page req) (JNum 1))
                         (default_param (q_limit req) (JNum 20))))),
              (''limit'', JNum (limit (validatePagination (default_param (q_page req) (JNum 1))
                         (default_param (q_limit req) (JNum 20))))),
              (''hasMore'', JBool (int (length items) = limit (validatePagination (default_param (q_page req) (JNum 1))
                         (default_param (q_limit req) (JNum 20)))))]"
proof -
  have "map_throwing (formatThreadForApi (env_moment env)) rows = Inr items"
    using assms(1) by (rule map_throwing_Inr_I)
  then show ?thesis
    unfolding threads_route_def Let_def assms(2)[symmetric]
    by (simp add: response_threads_def response_pagination_def createApiResponse_def)
qed

lemma formatThread_object:
  assumes "truthy row" and "get_prop row ''path'' = JStr p"
  shows "\<exists>out. formatThreadForApi lib row = Inr out \<and> get_prop out ''id'' = get_prop row ''id''"
proof -
  obtain l where l: "getLanguageFromPath (JStr p) = Inr l"
    using getLanguageFromPath_JStr [of p] by blast
  obtain c where c: "getCategoryFromPath (JStr p) = Inr c"
    using getCategoryFromPath_JStr [of p] by blast
  show ?thesis
    using assms l c by (simp add: formatThreadForApi_def del: getCategoryFromPath.simps)
qed

lemma format_objects:
  assumes "\<And>r. truthy (row r) \<and> get_prop (row r) ''path'' = JStr (s_path r)
              \<and> get_prop (row r) ''id'' = JNum (s_id r)"
  shows "\<exists>ys. map (formatThreadForApi lib) (map row rs) = map Inr ys
     \<and> map (\<lambda>i. get_prop i ''id'') ys = map (\<lambda>r. JNum (s_id r)) rs"
proof (induction rs)
  case Nil
  show ?case by simp
next
  case (Cons r rs)
  then obtain ys where ys: "map (formatThreadForApi lib) (map row rs) = map Inr ys"
    "map (\<lambda>i. get_prop i ''id'') ys = map (\<lambda>r. JNum (s_id r)) rs"
    by blast
  obtain y where y: "formatThreadForApi lib (row r) = Inr y"
    "get_prop y ''id'' = JNum (s_id r)"
    using formatThread_object [of "row r" "s_path r" lib] assms [of r] by auto
  have "map (formatThreadForApi lib) (map row (r # rs)) = map Inr (y # ys)
      \<and> map (\<lambda>i. get_prop i ''id'') (y # ys) = map (\<lambda>r. JNum (s_id r)) (r # rs)"
    using ys y by simp
  then show ?case by blast
qed

lemma format_rows:
  "\<exists>ys. map (formatThreadForApi lib) (map thread_row rs) = map Inr ys
     \<and> map (\<lambda>i. get_prop i ''id'') ys = map (\<lambda>r. JNum (s_id r)) rs"
  by (rule format_objects) (simp add: thread_row_def)


















lemma english_db_count:
  "length (filter (threads_where (JStr English) JUndefined) (threads english_db)) = 45"
proof -
  have "like (language_pattern (JStr English))
      (lit ''Calendar/Champions of Regnum/English/General'')"
    by (simp add: language_pattern_def English_def lit_def ascii_lower_def)
  then have "filter (threads_where (JStr English) JUndefined) (threads english_db)
      = threads english_db"
    by (simp add: english_db_def threads_where_def filter_map comp_def)
  then show ?thesis by (simp add: english_db_def)
qed

lemma validate_1_100:
  "validatePagination (JStr (lit ''1'')) (JStr (lit ''100''))
     = \<lparr>page = 1, limit = 100, offset = 0\<rparr>"
  by (simp add: parse_defs round_double_exact)

lemma map_take_drop:
  "map h xs = map k ys \<Longrightarrow> map h (take n (drop m xs)) = map k (take n (drop m ys))"
  by (metis take_map drop_map)




text \<open>
  C5. The request language=English, page=2, limit=20 on any database with 45 English
  threads is answered with status 200 and exactly 20 threads, items 21 to 40 of the 45
  that the same query returns on one page of 100. The pagination object of the
  response is {page: 2, limit: 20, hasMore: true}: it has no totalPages, hasNext or
  hasPrev, and so differs from the object the spec expects.
\<close>

theorem threads_route_page_two:
  assumes "length (filter (threads_where (JStr English) JUndefined) (threads db)) = 45"
  shows "http_status (threads_route env db page_two_request) = 200
     \<and> response_pagination (threads_route env db page_two_request)
         = JObj [(''page'', JNum 2), (''limit'', JNum 20), (''hasMore'', JBool True)]
     \<and> response_pagination (threads_route env db page_two_request) \<noteq> spec_pagination_page_two
     \<and> get_prop (response_pagination (threads_route env db page_two_request)) ''totalPages''
         = JUndefined
     \<and> (\<exists>items every.
           response_threads (threads_route env db page_two_request) = JArr items
           \<and> length items = 20
           \<and> response_threads (threads_route env db
                (page_two_request\<lparr>q_page := JStr (lit ''1''), q_limit := JStr (lit ''100'')\<rparr>))
               = JArr every
           \<and> length every = 45
           \<and> items = take 20 (drop 20 every))"
proof -
  define S where "S = order_by_desc s_last_post_time
      (map (thread_select db) (filter (threads_where (JStr English) JUndefined) (threads db)))"
  have lenS: "length S = 45"
    using assms by (simp add: S_def length_order_by_desc)
  obtain every where every:
    "map (formatThreadForApi (env_moment env)) (map thread_row S) = map Inr every"
    using format_rows by blast
  have len_every: "length every = 45"
    using arg_cong [OF every, of length] lenS by simp
  define items where "items = take 20 (drop 20 every)"
  have items: "map (formatThreadForApi (env_moment env))
      (map thread_row (take 20 (drop 20 S))) = map Inr items"
    unfolding items_def map_map using every [unfolded map_map] by (rule map_take_drop)
  have len_items: "length items = 20"
    using len_every by (simp add: items_def)
  have two: "http_status (threads_route env db page_two_request) = 200
    \<and> response_threads (threads_route env db page_two_request) = JArr items
    \<and> response_pagination (threads_route env db page_two_request)
         = JObj [(''page'', JNum 2), (''limit'', JNum 20), (''hasMore'', JBool True)]"
    using threads_route_ok [of env "map thread_row (take 20 (drop 20 S))" items
        page_two_request db] items len_items
    by (simp add: page_two_request_def default_param_def validate_2_20 getThreads_def
          limit_offset_def S_def)
  have all: "response_threads (threads_route env db
                (page_two_request\<lparr>q_page := JStr (lit ''1''), q_limit := JStr (lit ''100'')\<rparr>))
               = JArr every"
    using threads_route_ok [of env "map thread_row S" every
        "page_two_request\<lparr>q_page := JStr (lit ''1''), q_limit := JStr (lit ''100'')\<rparr>" db]
      every lenS
    by (simp add: page_two_request_def default_param_def validate_1_100 getThreads_def
          limit_offset_def S_def)
  have differs: "JObj [(''page'', JNum 2), (''limit'', JNum 20), (''hasMore'', JBool True)]
      \<noteq> spec_pagination_page_two"
    by (simp add: spec_pagination_page_two_def)
  have none: "get_prop (JObj [(''page'', JNum 2), (''limit'', JNum 20), (''hasMore'', JBool True)])
      ''totalPages'' = JUndefined"
    by simp
  have list: "\<exists>items every.
           response_threads (threads_route env db page_two_request) = JArr items
           \<and> length items = 20
           \<and> response_threads (threads_route env db
                (page_two_request\<lparr>q_page := JStr (lit ''1''), q_limit := JStr (lit ''100'')\<rparr>))
               = JArr every
           \<and> length every = 45
           \<and> items = take 20 (drop 20 every)"
    using two all len_items len_every items_def by blast
  show ?thesis
    using two differs none list by (simp only:) simp
qed

theorem threads_route_page_two_witness:
  "http_status (threads_route sample_env english_db page_two_request) = 200
   \<and> response_pagination (threads_route sample_env english_db page_two_request)
       = JObj [(''page'', JNum 2), (''limit'', JNum 20), (''hasMore'', JBool True)]
   \<and> get_prop (response_pagination (threads_route sample_env english_db page_two_request))
       ''totalPages'' = JUndefined
   \<and> get_prop spec_pagination_page_two ''totalPages'' = JNum 3
   \<and> (\<exists>items. response_threads (threads_route sample_env english_db page_two_request)
         = JArr items \<and> length items = 20)"
  using threads_route_page_two [OF english_db_count, of sample_env]
  by (auto simp: spec_pagination_page_two_def)


end
